theory Spec2Isabelle
  imports Main "HOL-Library.Word"
begin

section \<open>The process lifecycle manager\<close>

text \<open>
  A shallow embedding of \<^verbatim>\<open>01-process-management/examples/advanced/lifecycle_manager.go\<close>.

  Go's \<^verbatim>\<open>int\<close> is modelled as a 64-bit word (the size on 64-bit platforms): \<open>+\<close> wraps,
  comparisons \<^verbatim>\<open><\<close> and \<^verbatim>\<open>>=\<close> read the word as two's complement (\<open>sint\<close>).
  Points in time (\<^verbatim>\<open>time.Time\<close>) are natural numbers of nanoseconds on Go's monotonic clock.
\<close>

type_synonym go_int = "64 word"

definition second :: nat where
  "second = 1000000000"

subsection \<open>Data\<close>

datatype ProcessState =
    StateCreated
  | StateStarting
  | StateRunning
  | StateStopping
  | StateStopped
  | StateFailed
  | StateRestarting

text \<open>The two implementations of the \<^verbatim>\<open>HealthChecker\<close> interface.\<close>

datatype HealthChecker = DefaultHealthChecker | HTTPHealthChecker

text \<open>
  \<^verbatim>\<open>*exec.Cmd\<close> as the manager stores it: \<^verbatim>\<open>process.cmd\<close> is assigned only after
  \<^verbatim>\<open>cmd.Start()\<close> succeeded, so a stored handle always has its \<^verbatim>\<open>Process\<close> set.
  \<open>Env\<close> is the overlay appended to \<^verbatim>\<open>os.Environ()\<close>.
\<close>

record Cmd =
  Args :: "string list"
  Dir :: string
  Env :: "string \<rightharpoonup> string"
  Pid :: go_int

record ManagedProcess =
  ID :: go_int
  PID :: go_int
  Name :: string
  Command :: "string list"
  State :: ProcessState
  StartTime :: nat
  EndTime :: "nat option"
  RestartCount :: go_int
  MaxRestarts :: go_int
  HealthCheck :: HealthChecker
  Dependencies :: "go_int list"
  Environment :: "string \<rightharpoonup> string"
  WorkDir :: string
  LogFile :: string
  cmd :: "Cmd option"

text \<open>
  What the manager does to the outside world, and every write of a record's \<open>State\<close>
  field, in program order. Output to the terminal is not modelled.
\<close>

datatype signal = SIGTERM | SIGKILL

datatype event =
    EvState go_int ProcessState  \<comment> \<open>\<^verbatim>\<open>process.State = s\<close> on the record stored under the id\<close>
  | EvLaunch go_int  \<comment> \<open>\<^verbatim>\<open>cmd.Start()\<close> called for the record stored under the id\<close>
  | EvSignal go_int signal bool  \<comment> \<open>signal sent to the pid; the flag is \<^verbatim>\<open>err == nil\<close>\<close>
  | EvWait go_int  \<comment> \<open>\<^verbatim>\<open>cmd.Wait()\<close> returned: the process with this pid has exited\<close>
  | EvSleep nat  \<comment> \<open>\<^verbatim>\<open>time.Sleep\<close>\<close>
  | EvGoMonitor go_int  \<comment> \<open>\<^verbatim>\<open>go plm.monitorProcess(process)\<close>\<close>
  | EvGoRestart go_int  \<comment> \<open>\<^verbatim>\<open>go plm.RestartProcess(process.ID)\<close>\<close>
  | EvClose  \<comment> \<open>\<^verbatim>\<open>close(plm.shutdownChannel)\<close>\<close>

text \<open>
  The manager. \<open>shutdownChannel\<close> holds whether the channel has been closed (nothing is
  ever sent on it). The mutex is not modelled: operations are taken as atomic steps.
  Two fields stand for the environment: \<open>clock\<close> is the current reading of
  \<^verbatim>\<open>time.Now()\<close>, \<open>history\<close> the events so far.
\<close>

record ProcessLifecycleManager =
  processes :: "go_int \<rightharpoonup> ManagedProcess"
  nextProcessID :: go_int
  shutdownChannel :: bool
  clock :: nat
  history :: "event list"

datatype error =
    NotFound go_int  \<comment> \<open>"process %d not found"\<close>
  | DependenciesNotSatisfied go_int  \<comment> \<open>"dependencies not satisfied for process %d"\<close>
  | StartFailed go_int  \<comment> \<open>"failed to start process %d: %v"\<close>
  | NotRunning go_int  \<comment> \<open>"process %d is not running"\<close>
  | SigtermFailed go_int  \<comment> \<open>"failed to send SIGTERM to process %d: %v"\<close>
  | RestartLimit go_int go_int  \<comment> \<open>"process %d has exceeded maximum restart count (%d)"\<close>

text \<open>A Go panic that nothing recovers ends the program: no state is left to observe.\<close>

datatype 'a outcome = Panics | Returns 'a

subsection \<open>What the environment decides\<close>

text \<open>The result of \<^verbatim>\<open>cmd.Start()\<close>: the pid of the new process, or an error.\<close>

datatype launch_result = Launched go_int | LaunchError

text \<open>
  What happens when \<open>StopProcess\<close> signals a process: delivering SIGTERM fails; or the
  process exits before the 10 second timer fires; or the timer fires first and the
  process is killed. The number is the time that passes until \<^verbatim>\<open>cmd.Wait()\<close> returns
  (after the timer, in the third case); the flag of \<open>NeedsKill\<close> is whether
  \<^verbatim>\<open>Process.Kill()\<close> succeeds, which the source does not look at. A process that
  survives the kill would block \<open>StopProcess\<close> for ever; the process is taken to exit.
\<close>

datatype stop_env = TermFails | ExitsInGrace nat | NeedsKill bool nat

text \<open>Which case of the monitor's \<^verbatim>\<open>select\<close> is taken.\<close>

datatype select_case = TickerFired | ShutdownReceived

subsection \<open>Helpers for state passing\<close>

definition emit :: "event \<Rightarrow> ProcessLifecycleManager \<Rightarrow> ProcessLifecycleManager" where
  "emit e plm = plm\<lparr>history := history plm @ [e]\<rparr>"

definition advance :: "nat \<Rightarrow> ProcessLifecycleManager \<Rightarrow> ProcessLifecycleManager" where
  "advance d plm = plm\<lparr>clock := clock plm + d\<rparr>"

text \<open>A write through the pointer stored under \<open>i\<close>.\<close>

definition update_process ::
  "go_int \<Rightarrow> (ManagedProcess \<Rightarrow> ManagedProcess) \<Rightarrow> ProcessLifecycleManager \<Rightarrow> ProcessLifecycleManager" where
  "update_process i f plm = plm\<lparr>processes := (processes plm)(i := map_option f (processes plm i))\<rparr>"

definition set_State :: "go_int \<Rightarrow> ProcessState \<Rightarrow> ProcessLifecycleManager \<Rightarrow> ProcessLifecycleManager" where
  "set_State i s plm = emit (EvState i s) (update_process i (\<lambda>p. p\<lparr>State := s\<rparr>) plm)"

subsection \<open>Health checks\<close>

text \<open>
  \<open>alive\<close> is whether sending signal 0 to the process succeeds.
  The HTTP checker is the source's simplified one: it only looks at the handle.
\<close>

fun Check :: "HealthChecker \<Rightarrow> ManagedProcess \<Rightarrow> bool \<Rightarrow> bool" where
  "Check DefaultHealthChecker process alive = (case cmd process of None \<Rightarrow> False | Some c \<Rightarrow> alive)"
| "Check HTTPHealthChecker process alive = (cmd process \<noteq> None)"

subsection \<open>Operations\<close>

definition NewProcessLifecycleManager :: "nat \<Rightarrow> ProcessLifecycleManager" where
  "NewProcessLifecycleManager now =
     \<lparr>processes = Map.empty, nextProcessID = 1, shutdownChannel = False,
      clock = now, history = []\<rparr>"

definition CreateProcess ::
  "string \<Rightarrow> string list \<Rightarrow> ProcessLifecycleManager \<Rightarrow> ManagedProcess \<times> ProcessLifecycleManager" where
  "CreateProcess name command plm =
     (let process = \<lparr>ID = nextProcessID plm, PID = 0, Name = name, Command = command,
                     State = StateCreated, StartTime = clock plm, EndTime = None,
                     RestartCount = 0, MaxRestarts = 3, HealthCheck = DefaultHealthChecker,
                     Dependencies = [], Environment = Map.empty, WorkDir = ''/tmp'',
                     LogFile = '''', cmd = None\<rparr>
      in (process,
          plm\<lparr>processes := (processes plm)(ID process \<mapsto> process),
              nextProcessID := nextProcessID plm + 1\<rparr>))"

text \<open>The loop of \<open>checkDependencies\<close>, with its early return.\<close>

fun checkDeps :: "(go_int \<rightharpoonup> ManagedProcess) \<Rightarrow> go_int list \<Rightarrow> bool" where
  "checkDeps ps [] = True"
| "checkDeps ps (depID # rest) =
     (case ps depID of
        None \<Rightarrow> False
      | Some dep \<Rightarrow> if State dep \<noteq> StateRunning then False else checkDeps ps rest)"

definition checkDependencies :: "ProcessLifecycleManager \<Rightarrow> ManagedProcess \<Rightarrow> bool" where
  "checkDependencies plm process = checkDeps (processes plm) (Dependencies process)"

text \<open>
  \<open>StartProcess\<close>. \<^verbatim>\<open>process.Command[0]\<close> panics on an empty command, after the state
  has been set to Starting. The log file is opened only when \<open>LogFile\<close> is set, which no
  operation does, and a failure to open it is ignored.
\<close>

definition StartProcess ::
  "go_int \<Rightarrow> launch_result \<Rightarrow> ProcessLifecycleManager \<Rightarrow> (error option \<times> ProcessLifecycleManager) outcome" where
  "StartProcess processID lr plm =
     (case processes plm processID of
        None \<Rightarrow> Returns (Some (NotFound processID), plm)
      | Some process \<Rightarrow>
          if \<not> checkDependencies plm process
          then Returns (Some (DependenciesNotSatisfied processID), plm)
          else
            let plm1 = set_State processID StateStarting plm in
            (case Command process of
               [] \<Rightarrow> Panics
             | name # args \<Rightarrow>
                 let plm2 = emit (EvLaunch processID) plm1 in
                 (case lr of
                    LaunchError \<Rightarrow>
                      Returns (Some (StartFailed processID), set_State processID StateFailed plm2)
                  | Launched pid \<Rightarrow>
                      let c = \<lparr>Args = name # args, Dir = WorkDir process,
                               Env = Environment process, Pid = pid\<rparr>;
                          plm3 = update_process processID (\<lambda>p. p\<lparr>cmd := Some c, PID := pid\<rparr>) plm2;
                          plm4 = set_State processID StateRunning plm3;
                          plm5 = update_process processID (\<lambda>p. p\<lparr>StartTime := clock plm4\<rparr>) plm4
                      in Returns (None, emit (EvGoMonitor processID) plm5))))"

text \<open>The end of \<open>StopProcess\<close>: the state becomes Stopped and the end time is taken.\<close>

definition stop_finish ::
  "go_int \<Rightarrow> ProcessLifecycleManager \<Rightarrow> error option \<times> ProcessLifecycleManager" where
  "stop_finish processID plm =
     (let plm1 = set_State processID StateStopped plm
      in (None, update_process processID (\<lambda>p. p\<lparr>EndTime := Some (clock plm1)\<rparr>) plm1))"

definition gracePeriod :: nat where
  "gracePeriod = 10 * second"

definition StopProcess ::
  "go_int \<Rightarrow> stop_env \<Rightarrow> ProcessLifecycleManager \<Rightarrow> error option \<times> ProcessLifecycleManager" where
  "StopProcess processID se plm =
     (case processes plm processID of
        None \<Rightarrow> (Some (NotFound processID), plm)
      | Some process \<Rightarrow>
          if State process \<noteq> StateRunning then (Some (NotRunning processID), plm)
          else
            let plm1 = set_State processID StateStopping plm in
            (case cmd process of
               None \<Rightarrow> stop_finish processID plm1
             | Some c \<Rightarrow>
                 (case se of
                    TermFails \<Rightarrow>
                      (Some (SigtermFailed processID), emit (EvSignal (Pid c) SIGTERM False) plm1)
                  | ExitsInGrace d \<Rightarrow>
                      stop_finish processID
                        (emit (EvWait (Pid c)) (advance d
                          (emit (EvSignal (Pid c) SIGTERM True) plm1)))
                  | NeedsKill killed d \<Rightarrow>
                      stop_finish processID
                        (emit (EvWait (Pid c)) (advance d
                          (emit (EvSignal (Pid c) SIGKILL killed) (advance gracePeriod
                            (emit (EvSignal (Pid c) SIGTERM True) plm1))))))))"

text \<open>
  \<open>RestartProcess\<close>. The test "stop if running" reads the state after it has been set to
  Restarting; the error of \<open>StopProcess\<close> is dropped, as in the source.
\<close>

definition RestartProcess ::
  "go_int \<Rightarrow> stop_env \<Rightarrow> launch_result \<Rightarrow> ProcessLifecycleManager \<Rightarrow>
   (error option \<times> ProcessLifecycleManager) outcome" where
  "RestartProcess processID se lr plm =
     (case processes plm processID of
        None \<Rightarrow> Returns (Some (NotFound processID), plm)
      | Some process \<Rightarrow>
          if sint (RestartCount process) \<ge> sint (MaxRestarts process)
          then Returns (Some (RestartLimit processID (MaxRestarts process)), plm)
          else
            let plm1 = set_State processID StateRestarting plm;
                plm2 = update_process processID (\<lambda>p. p\<lparr>RestartCount := RestartCount p + 1\<rparr>) plm1;
                plm3 = (case processes plm2 processID of
                          None \<Rightarrow> plm2
                        | Some p \<Rightarrow>
                            if State p = StateRunning \<or> State p = StateStarting
                            then snd (StopProcess processID se plm2)
                            else plm2);
                plm4 = advance (2 * second) (emit (EvSleep (2 * second)) plm3)
            in StartProcess processID lr plm4)"

text \<open>
  \<open>RestartProcess\<close> holds the mutex for the lookup only, and the monitor starts it with
  \<^verbatim>\<open>go\<close>, so other calls can run between its steps. Its three parts: the lookup and the
  budget test; the writes of the state and the counter, with the test "stop if running";
  the pause and the call of \<open>StartProcess\<close>. The second and third part work on the record
  the first has looked up.
\<close>

definition RestartProcess_test :: "go_int \<Rightarrow> ProcessLifecycleManager \<Rightarrow> error option" where
  "RestartProcess_test processID plm =
     (case processes plm processID of
        None \<Rightarrow> Some (NotFound processID)
      | Some process \<Rightarrow>
          if sint (RestartCount process) \<ge> sint (MaxRestarts process)
          then Some (RestartLimit processID (MaxRestarts process))
          else None)"

definition RestartProcess_mark ::
  "go_int \<Rightarrow> stop_env \<Rightarrow> ProcessLifecycleManager \<Rightarrow> ProcessLifecycleManager" where
  "RestartProcess_mark processID se plm =
     (case processes plm processID of
        None \<Rightarrow> plm
      | Some process \<Rightarrow>
          let plm1 = set_State processID StateRestarting plm;
              plm2 = update_process processID (\<lambda>p. p\<lparr>RestartCount := RestartCount p + 1\<rparr>) plm1
          in (case processes plm2 processID of
                None \<Rightarrow> plm2
              | Some p \<Rightarrow>
                  if State p = StateRunning \<or> State p = StateStarting
                  then snd (StopProcess processID se plm2)
                  else plm2))"

definition RestartProcess_finish ::
  "go_int \<Rightarrow> launch_result \<Rightarrow> ProcessLifecycleManager \<Rightarrow>
   (error option \<times> ProcessLifecycleManager) outcome" where
  "RestartProcess_finish processID lr plm =
     StartProcess processID lr (advance (2 * second) (emit (EvSleep (2 * second)) plm))"

text \<open>
  One iteration of the loop of \<open>monitorProcess\<close>, for the monitor of the record stored
  under \<open>i\<close>. The result says whether the loop goes on. The shutdown case can only be
  taken once the channel is closed; before that the monitor keeps waiting.
\<close>

definition monitorProcess ::
  "go_int \<Rightarrow> select_case \<Rightarrow> bool \<Rightarrow> ProcessLifecycleManager \<Rightarrow> bool \<times> ProcessLifecycleManager" where
  "monitorProcess i sel alive plm =
     (case processes plm i of
        None \<Rightarrow> (False, plm)
      | Some process \<Rightarrow>
          (case sel of
             ShutdownReceived \<Rightarrow> (\<not> shutdownChannel plm, plm)
           | TickerFired \<Rightarrow>
               if State process \<noteq> StateRunning then (False, plm)
               else if \<not> Check (HealthCheck process) process alive then
                 let plm1 = set_State i StateFailed plm in
                 if sint (RestartCount process) < sint (MaxRestarts process)
                 then (False, emit (EvGoRestart (ID process)) plm1)
                 else (False, plm1)
               else (True, plm)))"

text \<open>
  \<open>ShutdownAll\<close>. Closing a closed channel panics. \<open>order\<close> is the order in which
  \<^verbatim>\<open>range plm.processes\<close> visits the keys, \<open>se\<close> what happens to each process stopped.
\<close>

fun stopAll ::
  "go_int list \<Rightarrow> (go_int \<Rightarrow> stop_env) \<Rightarrow> ProcessLifecycleManager \<Rightarrow> ProcessLifecycleManager" where
  "stopAll [] se plm = plm"
| "stopAll (i # rest) se plm = stopAll rest se (snd (StopProcess i (se i) plm))"

definition runningProcesses :: "go_int list \<Rightarrow> ProcessLifecycleManager \<Rightarrow> go_int list" where
  "runningProcesses order plm =
     concat (map (\<lambda>k. case processes plm k of
                        None \<Rightarrow> []
                      | Some process \<Rightarrow> if State process = StateRunning then [ID process] else [])
                 order)"

definition ShutdownAll ::
  "go_int list \<Rightarrow> (go_int \<Rightarrow> stop_env) \<Rightarrow> ProcessLifecycleManager \<Rightarrow> ProcessLifecycleManager outcome" where
  "ShutdownAll order se plm =
     (if shutdownChannel plm then Panics
      else
        let plm1 = emit EvClose (plm\<lparr>shutdownChannel := True\<rparr>)
        in Returns (stopAll (runningProcesses order plm1) se plm1))"

definition SetProcessEnvironment ::
  "go_int \<Rightarrow> (string \<rightharpoonup> string) \<Rightarrow> ProcessLifecycleManager \<Rightarrow> error option \<times> ProcessLifecycleManager" where
  "SetProcessEnvironment processID env plm =
     (case processes plm processID of
        None \<Rightarrow> (Some (NotFound processID), plm)
      | Some process \<Rightarrow>
          (None, update_process processID (\<lambda>p. p\<lparr>Environment := Environment p ++ env\<rparr>) plm))"

definition SetProcessDependencies ::
  "go_int \<Rightarrow> go_int list \<Rightarrow> ProcessLifecycleManager \<Rightarrow> error option \<times> ProcessLifecycleManager" where
  "SetProcessDependencies processID dependencies plm =
     (case processes plm processID of
        None \<Rightarrow> (Some (NotFound processID), plm)
      | Some process \<Rightarrow>
          (None, update_process processID (\<lambda>p. p\<lparr>Dependencies := dependencies\<rparr>) plm))"

subsection \<open>Runs of the manager\<close>

text \<open>
  A run is a sequence of steps, each with what the environment decides during it.
  \<open>OpMonitor\<close> is one iteration of a monitor; a run may have it for any record at any
  time, which covers every monitor the code has spawned. A restart requested by a monitor
  (\<open>EvGoRestart\<close>) runs as a later restart. \<open>OpRestart\<close> is a call of \<open>RestartProcess\<close>
  during which nothing else runs; \<open>OpRestartTest\<close>, \<open>OpRestartMark\<close> and
  \<open>OpRestartFinish\<close> are the three parts of a call, between which a run may have any other
  steps. \<open>OpAdvance\<close> lets time pass. A panic ends the run. Callers do not write to the
  records \<open>CreateProcess\<close> hands out.
\<close>

datatype op =
    OpCreate string "string list"
  | OpStart go_int launch_result
  | OpStop go_int stop_env
  | OpRestart go_int stop_env launch_result
  | OpRestartTest go_int
  | OpRestartMark go_int stop_env
  | OpRestartFinish go_int launch_result
  | OpMonitor go_int select_case bool
  | OpShutdownAll "go_int list" "go_int \<Rightarrow> stop_env"
  | OpSetEnv go_int "string \<rightharpoonup> string"
  | OpSetDeps go_int "go_int list"
  | OpAdvance nat

fun exec :: "op \<Rightarrow> ProcessLifecycleManager \<Rightarrow> ProcessLifecycleManager outcome" where
  "exec (OpCreate name command) plm = Returns (snd (CreateProcess name command plm))"
| "exec (OpStart i lr) plm =
     (case StartProcess i lr plm of Panics \<Rightarrow> Panics | Returns r \<Rightarrow> Returns (snd r))"
| "exec (OpStop i se) plm = Returns (snd (StopProcess i se plm))"
| "exec (OpRestart i se lr) plm =
     (case RestartProcess i se lr plm of Panics \<Rightarrow> Panics | Returns r \<Rightarrow> Returns (snd r))"
| "exec (OpRestartTest i) plm = Returns plm"
| "exec (OpRestartMark i se) plm = Returns (RestartProcess_mark i se plm)"
| "exec (OpRestartFinish i lr) plm =
     (case RestartProcess_finish i lr plm of Panics \<Rightarrow> Panics | Returns r \<Rightarrow> Returns (snd r))"
| "exec (OpMonitor i sel alive) plm = Returns (snd (monitorProcess i sel alive plm))"
| "exec (OpShutdownAll order se) plm = ShutdownAll order se plm"
| "exec (OpSetEnv i env) plm = Returns (snd (SetProcessEnvironment i env plm))"
| "exec (OpSetDeps i deps) plm = Returns (snd (SetProcessDependencies i deps plm))"
| "exec (OpAdvance d) plm = Returns (advance d plm)"

fun run :: "op list \<Rightarrow> ProcessLifecycleManager \<Rightarrow> ProcessLifecycleManager outcome" where
  "run [] plm = Returns plm"
| "run (x # xs) plm = (case exec x plm of Panics \<Rightarrow> Panics | Returns plm' \<Rightarrow> run xs plm')"

text \<open>The launcher never hands out pid 0: a run in which every launched pid is non-zero.\<close>

fun launch_pid_ok :: "launch_result \<Rightarrow> bool" where
  "launch_pid_ok (Launched pid) = (pid \<noteq> 0)"
| "launch_pid_ok LaunchError = True"

fun op_pids_ok :: "op \<Rightarrow> bool" where
  "op_pids_ok (OpStart i lr) = launch_pid_ok lr"
| "op_pids_ok (OpRestart i se lr) = launch_pid_ok lr"
| "op_pids_ok (OpRestartFinish i lr) = launch_pid_ok lr"
| "op_pids_ok x = True"

definition pids_nonzero :: "op list \<Rightarrow> bool" where
  "pids_nonzero ops = list_all op_pids_ok ops"

fun is_create :: "op \<Rightarrow> bool" where
  "is_create (OpCreate name command) = True"
| "is_create x = False"

text \<open>The pid a step assigns to the record under \<open>i\<close>, when it launches its process.\<close>

fun started_pid :: "go_int \<Rightarrow> op \<Rightarrow> go_int option" where
  "started_pid i (OpStart j (Launched pid)) = (if j = i then Some pid else None)"
| "started_pid i (OpRestart j se (Launched pid)) = (if j = i then Some pid else None)"
| "started_pid i (OpRestartFinish j (Launched pid)) = (if j = i then Some pid else None)"
| "started_pid i x = None"








subsection \<open>Invariants used in the proofs\<close>

definition all_records :: "(ManagedProcess \<Rightarrow> bool) \<Rightarrow> ProcessLifecycleManager \<Rightarrow> bool" where
  "all_records P plm = (\<forall>i p. processes plm i = Some p \<longrightarrow> P p)"

definition pid_inv :: "ManagedProcess \<Rightarrow> bool" where
  "pid_inv p \<longleftrightarrow>
     (State p = StateCreated \<longrightarrow> PID p = 0) \<and>
     (State p = StateRunning \<or> State p = StateStopping \<longrightarrow> PID p \<noteq> 0) \<and>
     State p \<noteq> StateStarting"

definition handle_inv :: "nat \<Rightarrow> ManagedProcess \<Rightarrow> bool" where
  "handle_inv now p \<longleftrightarrow> (State p = StateRunning \<longrightarrow> cmd p \<noteq> None) \<and> StartTime p \<le> now"

definition ids_inv :: "nat \<Rightarrow> ProcessLifecycleManager \<Rightarrow> bool" where
  "ids_inv n plm \<longleftrightarrow>
     unat (nextProcessID plm) \<le> n + 1 \<and>
     (\<forall>k p. processes plm k = Some p \<longrightarrow> unat k < unat (nextProcessID plm))"

text \<open>Every record is stored under its own id.\<close>

definition key_inv :: "ProcessLifecycleManager \<Rightarrow> bool" where
  "key_inv plm \<longleftrightarrow> (\<forall>k p. processes plm k = Some p \<longrightarrow> ID p = k)"

abbreviation handle_ok :: "ProcessLifecycleManager \<Rightarrow> bool" where
  "handle_ok plm \<equiv> all_records (handle_inv (clock plm)) plm"




subsection \<open>The states of the demo\<close>

text \<open>
  The demo of \<open>main\<close> creates the process "sleeper" and starts it. These are the states it
  goes through, with 4242 for the pid the launcher returns, and the states after it is
  stopped (the process exits one second after SIGTERM), started once more, shut down, and
  restarted once and three times. Each is written out, and shown further down to be what the
  operations return.
\<close>

definition demo_process :: ManagedProcess where
  "demo_process = fst (CreateProcess ''sleeper'' [''sleep'', ''30''] (NewProcessLifecycleManager 0))"

definition demo_created :: ProcessLifecycleManager where
  "demo_created = snd (CreateProcess ''sleeper'' [''sleep'', ''30''] (NewProcessLifecycleManager 0))"

definition demo_cmd :: "go_int \<Rightarrow> Cmd" where
  "demo_cmd pid = \<lparr>Args = [''sleep'', ''30''], Dir = ''/tmp'', Env = Map.empty, Pid = pid\<rparr>"

definition demo_record :: "go_int \<Rightarrow> ManagedProcess" where
  "demo_record pid = demo_process\<lparr>cmd := Some (demo_cmd pid), PID := pid, State := StateRunning\<rparr>"

definition demo_start_events :: "event list" where
  "demo_start_events = [EvState 1 StateStarting, EvLaunch 1, EvState 1 StateRunning, EvGoMonitor 1]"

definition demo_running :: ProcessLifecycleManager where
  "demo_running = demo_created\<lparr>processes := [1 \<mapsto> demo_record 4242], history := demo_start_events\<rparr>"

definition demo_stopped :: ProcessLifecycleManager where
  "demo_stopped =
     demo_running\<lparr>processes := [1 \<mapsto> (demo_record 4242)\<lparr>State := StateStopped, EndTime := Some second\<rparr>],
                  clock := second,
                  history := demo_start_events @
                    [EvState 1 StateStopping, EvSignal 4242 SIGTERM True, EvWait 4242,
                     EvState 1 StateStopped]\<rparr>"

definition demo_ops :: "op list" where
  "demo_ops = [OpCreate ''sleeper'' [''sleep'', ''30''], OpStart 1 (Launched 4242)]"

definition demo_relaunched :: ProcessLifecycleManager where
  "demo_relaunched =
     demo_running\<lparr>processes := [1 \<mapsto> demo_record 4343],
                  history := demo_start_events @ demo_start_events\<rparr>"

definition demo_dependent :: ProcessLifecycleManager where
  "demo_dependent =
     snd (SetProcessDependencies 2 [1]
       (snd (CreateProcess ''ping'' [''ping'', ''-c'', ''5'', ''localhost''] demo_created)))"

definition demo_stops :: "go_int \<Rightarrow> stop_env" where
  "demo_stops i = ExitsInGrace second"

definition demo_shutdown :: ProcessLifecycleManager where
  "demo_shutdown =
     demo_stopped\<lparr>shutdownChannel := True,
                  history := demo_start_events @
                    [EvClose, EvState 1 StateStopping, EvSignal 4242 SIGTERM True, EvWait 4242,
                     EvState 1 StateStopped]\<rparr>"

definition demo_restart_events :: "event list" where
  "demo_restart_events =
     [EvState 1 StateRestarting, EvSleep (2 * second), EvState 1 StateStarting, EvLaunch 1,
      EvState 1 StateRunning, EvGoMonitor 1]"

definition demo_restarted :: ProcessLifecycleManager where
  "demo_restarted =
     demo_running\<lparr>processes := [1 \<mapsto> (demo_record 4343)\<lparr>StartTime := 2 * second, RestartCount := 1\<rparr>],
                  clock := 2 * second,
                  history := demo_start_events @ demo_restart_events\<rparr>"









section \<open>Properties\<close>

subsection \<open>Field lookups after the helpers\<close>

lemma emit_fields [simp]:
  "processes (emit e plm) = processes plm"
  "nextProcessID (emit e plm) = nextProcessID plm"
  "shutdownChannel (emit e plm) = shutdownChannel plm"
  "clock (emit e plm) = clock plm"
  "history (emit e plm) = history plm @ [e]"
  by (simp_all add: emit_def)

lemma advance_fields [simp]:
  "processes (advance d plm) = processes plm"
  "nextProcessID (advance d plm) = nextProcessID plm"
  "shutdownChannel (advance d plm) = shutdownChannel plm"
  "clock (advance d plm) = clock plm + d"
  "history (advance d plm) = history plm"
  by (simp_all add: advance_def)

lemma update_process_fields [simp]:
  "processes (update_process i f plm) = (processes plm)(i := map_option f (processes plm i))"
  "nextProcessID (update_process i f plm) = nextProcessID plm"
  "shutdownChannel (update_process i f plm) = shutdownChannel plm"
  "clock (update_process i f plm) = clock plm"
  "history (update_process i f plm) = history plm"
  by (simp_all add: update_process_def)

lemma set_State_fields [simp]:
  "processes (set_State i s plm) = (processes plm)(i := map_option (\<lambda>p. p\<lparr>State := s\<rparr>) (processes plm i))"
  "nextProcessID (set_State i s plm) = nextProcessID plm"
  "shutdownChannel (set_State i s plm) = shutdownChannel plm"
  "clock (set_State i s plm) = clock plm"
  "history (set_State i s plm) = history plm @ [EvState i s]"
  by (simp_all add: set_State_def)

lemma checkDeps_iff:
  "checkDeps ps ds \<longleftrightarrow> (\<forall>d \<in> set ds. \<exists>dep. ps d = Some dep \<and> State dep = StateRunning)"
  by (induction ds) (auto split: option.splits)

lemma StartProcess_Launched:
  assumes "processes plm i = Some p" and "checkDependencies plm p" and "Command p \<noteq> []"
  shows "StartProcess i (Launched pid) plm =
           Returns (None,
             plm\<lparr>processes := (processes plm)(i \<mapsto>
                     p\<lparr>cmd := Some \<lparr>Args = Command p, Dir = WorkDir p, Env = Environment p, Pid = pid\<rparr>,
                       PID := pid, State := StateRunning, StartTime := clock plm\<rparr>),
                 history := history plm @
                     [EvState i StateStarting, EvLaunch i, EvState i StateRunning, EvGoMonitor i]\<rparr>)"
  using assms
  by (cases "Command p")
     (simp_all add: StartProcess_def Let_def set_State_def update_process_def emit_def)

lemma StartProcess_LaunchError:
  assumes "processes plm i = Some p" and "checkDependencies plm p" and "Command p \<noteq> []"
  shows "StartProcess i LaunchError plm =
           Returns (Some (StartFailed i),
             plm\<lparr>processes := (processes plm)(i \<mapsto> p\<lparr>State := StateFailed\<rparr>),
                 history := history plm @ [EvState i StateStarting, EvLaunch i, EvState i StateFailed]\<rparr>)"
  using assms
  by (cases "Command p")
     (simp_all add: StartProcess_def Let_def set_State_def update_process_def emit_def)

lemma StartProcess_empty_command:
  assumes "processes plm i = Some p" and "checkDependencies plm p" and "Command p = []"
  shows "StartProcess i lr plm = Panics"
  using assms by (simp add: StartProcess_def)

lemma StopProcess_TermFails:
  assumes "processes plm i = Some p" and "State p = StateRunning" and "cmd p = Some c"
  shows "StopProcess i TermFails plm =
           (Some (SigtermFailed i),
            plm\<lparr>processes := (processes plm)(i \<mapsto> p\<lparr>State := StateStopping\<rparr>),
                history := history plm @ [EvState i StateStopping, EvSignal (Pid c) SIGTERM False]\<rparr>)"
  using assms
  by (simp add: StopProcess_def Let_def set_State_def update_process_def emit_def)

lemma StopProcess_ExitsInGrace:
  assumes "processes plm i = Some p" and "State p = StateRunning" and "cmd p = Some c"
  shows "StopProcess i (ExitsInGrace d) plm =
           (None,
            plm\<lparr>processes := (processes plm)(i \<mapsto>
                    p\<lparr>State := StateStopped, EndTime := Some (clock plm + d)\<rparr>),
                clock := clock plm + d,
                history := history plm @
                    [EvState i StateStopping, EvSignal (Pid c) SIGTERM True, EvWait (Pid c),
                     EvState i StateStopped]\<rparr>)"
  using assms
  by (simp add: StopProcess_def stop_finish_def Let_def set_State_def update_process_def emit_def advance_def)

lemma StopProcess_NeedsKill:
  assumes "processes plm i = Some p" and "State p = StateRunning" and "cmd p = Some c"
  shows "StopProcess i (NeedsKill killed d) plm =
           (None,
            plm\<lparr>processes := (processes plm)(i \<mapsto>
                    p\<lparr>State := StateStopped, EndTime := Some (clock plm + gracePeriod + d)\<rparr>),
                clock := clock plm + gracePeriod + d,
                history := history plm @
                    [EvState i StateStopping, EvSignal (Pid c) SIGTERM True,
                     EvSignal (Pid c) SIGKILL killed, EvWait (Pid c), EvState i StateStopped]\<rparr>)"
  using assms
  by (simp add: StopProcess_def stop_finish_def Let_def set_State_def update_process_def emit_def advance_def)

lemma StopProcess_not_running:
  assumes "processes plm i = Some p" and "State p \<noteq> StateRunning"
  shows "StopProcess i se plm = (Some (NotRunning i), plm)"
  using assms by (simp add: StopProcess_def)


lemma RestartProcess_start:
  assumes "processes plm i = Some p" and "sint (RestartCount p) < sint (MaxRestarts p)"
  shows "RestartProcess i se lr plm =
           StartProcess i lr
             (advance (2 * second) (emit (EvSleep (2 * second))
                (update_process i (\<lambda>p. p\<lparr>RestartCount := RestartCount p + 1\<rparr>)
                   (set_State i StateRestarting plm))))"
  using assms
  by (simp add: RestartProcess_def Let_def)

lemma RestartProcess_mark_eq:
  "processes plm i = Some p \<Longrightarrow>
   RestartProcess_mark i se plm =
     update_process i (\<lambda>p. p\<lparr>RestartCount := RestartCount p + 1\<rparr>)
       (set_State i StateRestarting plm)"
  by (simp add: RestartProcess_mark_def Let_def)

lemma RestartProcess_mark_None:
  "processes plm i = None \<Longrightarrow> RestartProcess_mark i se plm = plm"
  by (simp add: RestartProcess_mark_def)

lemma RestartProcess_phases:
  "RestartProcess i se lr plm =
     (case RestartProcess_test i plm of
        Some e \<Rightarrow> Returns (Some e, plm)
      | None \<Rightarrow> RestartProcess_finish i lr (RestartProcess_mark i se plm))"
  by (simp add: RestartProcess_def RestartProcess_test_def RestartProcess_mark_def
        RestartProcess_finish_def Let_def split: option.splits)

subsection \<open>The PID invariant\<close>

lemma StopProcess_pid_inv:
  "all_records pid_inv plm \<Longrightarrow> all_records pid_inv (snd (StopProcess i se plm))"
  by (auto simp: StopProcess_def stop_finish_def Let_def all_records_def pid_inv_def
           split: option.splits stop_env.splits if_splits)

lemma stopAll_pid_inv:
  "all_records pid_inv plm \<Longrightarrow> all_records pid_inv (stopAll js se plm)"
  by (induction js arbitrary: plm) (simp_all add: StopProcess_pid_inv)

lemma StartProcess_pid_inv:
  "all_records pid_inv plm \<Longrightarrow> launch_pid_ok lr \<Longrightarrow> StartProcess i lr plm = Returns (e, plm')
   \<Longrightarrow> all_records pid_inv plm'"
  by (auto simp: StartProcess_def Let_def all_records_def pid_inv_def
           split: option.splits list.splits launch_result.splits if_splits)

lemma RestartProcess_pid_inv:
  assumes "all_records pid_inv plm" and "launch_pid_ok lr"
    and "RestartProcess i se lr plm = Returns (e, plm')"
  shows "all_records pid_inv plm'"
proof (cases "processes plm i")
  case None
  with assms show ?thesis by (simp add: RestartProcess_def)
next
  case (Some p)
  show ?thesis
  proof (cases "sint (RestartCount p) < sint (MaxRestarts p)")
    case False
    with Some assms show ?thesis by (simp add: RestartProcess_def)
  next
    case True
    let ?w = "advance (2 * second) (emit (EvSleep (2 * second))
                (update_process i (\<lambda>p. p\<lparr>RestartCount := RestartCount p + 1\<rparr>)
                   (set_State i StateRestarting plm)))"
    have "all_records pid_inv ?w"
      using assms(1) by (auto simp: all_records_def pid_inv_def split: if_splits)
    moreover have "StartProcess i lr ?w = Returns (e, plm')"
      using RestartProcess_start [OF Some True] assms(3) by simp
    ultimately show ?thesis
      using assms(2) StartProcess_pid_inv by blast
  qed
qed

lemma monitorProcess_pid_inv:
  "all_records pid_inv plm \<Longrightarrow> all_records pid_inv (snd (monitorProcess i sel alive plm))"
  by (auto simp: monitorProcess_def Let_def all_records_def pid_inv_def
           split: option.splits select_case.splits if_splits)

lemma RestartProcess_mark_pid_inv:
  "all_records pid_inv plm \<Longrightarrow> all_records pid_inv (RestartProcess_mark i se plm)"
proof (cases "processes plm i")
  case None
  then show "all_records pid_inv plm \<Longrightarrow> ?thesis" by (simp add: RestartProcess_mark_None)
next
  case (Some p)
  show "all_records pid_inv plm \<Longrightarrow> ?thesis"
    unfolding RestartProcess_mark_eq [OF Some]
    by (auto simp: all_records_def pid_inv_def split: if_splits)
qed

lemma exec_pid_inv:
  assumes "all_records pid_inv plm" and "op_pids_ok x" and "exec x plm = Returns plm'"
  shows "all_records pid_inv plm'"
proof (cases x)
  case (OpCreate name command)
  with assms show ?thesis
    by (auto simp: CreateProcess_def Let_def all_records_def pid_inv_def split: if_splits)
next
  case (OpStart i lr)
  with assms show ?thesis
    by (auto split: outcome.splits dest: StartProcess_pid_inv)
next
  case (OpStop i se)
  with assms show ?thesis by (auto simp: StopProcess_pid_inv)
next
  case (OpRestart i se lr)
  with assms show ?thesis
    by (auto split: outcome.splits dest: RestartProcess_pid_inv)
next
  case (OpMonitor i sel alive)
  with assms show ?thesis by (auto simp: monitorProcess_pid_inv)
next
  case (OpShutdownAll order se)
  have "all_records pid_inv (emit EvClose (plm\<lparr>shutdownChannel := True\<rparr>))"
    using assms(1) by (simp add: all_records_def)
  with OpShutdownAll assms show ?thesis
    by (auto simp: ShutdownAll_def Let_def stopAll_pid_inv split: if_splits)
next
  case (OpSetEnv i env)
  with assms show ?thesis
    by (auto simp: SetProcessEnvironment_def all_records_def pid_inv_def split: option.splits if_splits)
next
  case (OpSetDeps i deps)
  with assms show ?thesis
    by (auto simp: SetProcessDependencies_def all_records_def pid_inv_def split: option.splits if_splits)
next
  case (OpRestartTest i)
  with assms show ?thesis by simp
next
  case (OpRestartMark i se)
  with assms have "plm' = RestartProcess_mark i se plm" by simp
  with assms(1) show ?thesis by (simp add: RestartProcess_mark_pid_inv)
next
  case (OpRestartFinish i lr)
  with assms obtain e where
    "StartProcess i lr (advance (2 * second) (emit (EvSleep (2 * second)) plm)) = Returns (e, plm')"
    by (auto simp: RestartProcess_finish_def split: outcome.splits)
  moreover have "all_records pid_inv (advance (2 * second) (emit (EvSleep (2 * second)) plm))"
    using assms(1) by (simp add: all_records_def)
  moreover have "launch_pid_ok lr" using assms(2) OpRestartFinish by simp
  ultimately show ?thesis
    using StartProcess_pid_inv by blast
next
  case (OpAdvance d)
  with assms show ?thesis by (auto simp: all_records_def)
qed

lemma run_pid_inv:
  "all_records pid_inv plm \<Longrightarrow> pids_nonzero xs \<Longrightarrow> run xs plm = Returns plm'
   \<Longrightarrow> all_records pid_inv plm'"
proof (induction xs arbitrary: plm)
  case Nil
  then show ?case by simp
next
  case (Cons x xs)
  then show ?case
    by (auto simp: pids_nonzero_def split: outcome.splits dest: exec_pid_inv)
qed

lemma New_pid_inv: "all_records pid_inv (NewProcessLifecycleManager t0)"
  by (simp add: all_records_def NewProcessLifecycleManager_def)

lemma StopProcess_handle_inv:
  "handle_ok plm \<Longrightarrow> handle_ok (snd (StopProcess i se plm))"
  by (auto simp: StopProcess_def stop_finish_def Let_def all_records_def handle_inv_def
           intro!: trans_le_add1 split: option.splits stop_env.splits if_splits)

lemma stopAll_handle_inv:
  "handle_ok plm \<Longrightarrow> handle_ok (stopAll js se plm)"
  by (induction js arbitrary: plm) (simp_all add: StopProcess_handle_inv)

lemma StartProcess_handle_inv:
  "handle_ok plm \<Longrightarrow> StartProcess i lr plm = Returns (e, plm') \<Longrightarrow> handle_ok plm'"
  by (auto simp: StartProcess_def Let_def all_records_def handle_inv_def
           split: option.splits list.splits launch_result.splits if_splits)

lemma RestartProcess_handle_inv:
  assumes "handle_ok plm" and "RestartProcess i se lr plm = Returns (e, plm')"
  shows "handle_ok plm'"
proof (cases "processes plm i")
  case None
  with assms show ?thesis by (simp add: RestartProcess_def)
next
  case (Some p)
  show ?thesis
  proof (cases "sint (RestartCount p) < sint (MaxRestarts p)")
    case False
    with Some assms show ?thesis by (simp add: RestartProcess_def)
  next
    case True
    let ?w = "advance (2 * second) (emit (EvSleep (2 * second))
                (update_process i (\<lambda>p. p\<lparr>RestartCount := RestartCount p + 1\<rparr>)
                   (set_State i StateRestarting plm)))"
    have "handle_ok ?w"
      using assms(1) by (auto simp: all_records_def handle_inv_def intro!: trans_le_add1 split: if_splits)
    moreover have "StartProcess i lr ?w = Returns (e, plm')"
      using RestartProcess_start [OF Some True] assms(2) by simp
    ultimately show ?thesis
      using StartProcess_handle_inv by blast
  qed
qed

lemma monitorProcess_handle_inv:
  "handle_ok plm \<Longrightarrow> handle_ok (snd (monitorProcess i sel alive plm))"
  by (auto simp: monitorProcess_def Let_def all_records_def handle_inv_def
           split: option.splits select_case.splits if_splits)

lemma RestartProcess_mark_handle_inv:
  "handle_ok plm \<Longrightarrow> handle_ok (RestartProcess_mark i se plm)"
proof (cases "processes plm i")
  case None
  then show "handle_ok plm \<Longrightarrow> ?thesis" by (simp add: RestartProcess_mark_None)
next
  case (Some p)
  show "handle_ok plm \<Longrightarrow> ?thesis"
    unfolding RestartProcess_mark_eq [OF Some]
    by (auto simp: all_records_def handle_inv_def split: if_splits)
qed

lemma exec_handle_inv:
  assumes "handle_ok plm" and "exec x plm = Returns plm'"
  shows "handle_ok plm'"
proof (cases x)
  case (OpCreate name command)
  with assms show ?thesis
    by (auto simp: CreateProcess_def Let_def all_records_def handle_inv_def split: if_splits)
next
  case (OpStart i lr)
  with assms show ?thesis
    by (auto split: outcome.splits dest: StartProcess_handle_inv)
next
  case (OpStop i se)
  with assms show ?thesis by (auto simp: StopProcess_handle_inv)
next
  case (OpRestart i se lr)
  with assms show ?thesis
    by (auto split: outcome.splits dest: RestartProcess_handle_inv)
next
  case (OpMonitor i sel alive)
  with assms show ?thesis by (auto simp: monitorProcess_handle_inv)
next
  case (OpShutdownAll order se)
  have "handle_ok (emit EvClose (plm\<lparr>shutdownChannel := True\<rparr>))"
    using assms(1) by (simp add: all_records_def)
  with OpShutdownAll assms show ?thesis
    by (auto simp: ShutdownAll_def Let_def stopAll_handle_inv split: if_splits)
next
  case (OpSetEnv i env)
  with assms show ?thesis
    by (auto simp: SetProcessEnvironment_def all_records_def handle_inv_def split: option.splits if_splits)
next
  case (OpSetDeps i deps)
  with assms show ?thesis
    by (auto simp: SetProcessDependencies_def all_records_def handle_inv_def split: option.splits if_splits)
next
  case (OpRestartTest i)
  with assms show ?thesis by simp
next
  case (OpRestartMark i se)
  with assms have "plm' = RestartProcess_mark i se plm" by simp
  with assms(1) show ?thesis by (simp add: RestartProcess_mark_handle_inv)
next
  case (OpRestartFinish i lr)
  with assms obtain e where
    "StartProcess i lr (advance (2 * second) (emit (EvSleep (2 * second)) plm)) = Returns (e, plm')"
    by (auto simp: RestartProcess_finish_def split: outcome.splits)
  moreover have "handle_ok (advance (2 * second) (emit (EvSleep (2 * second)) plm))"
    using assms(1) by (auto simp: all_records_def handle_inv_def intro!: trans_le_add1)
  ultimately show ?thesis
    using StartProcess_handle_inv  by blast
next
  case (OpAdvance d)
  with assms show ?thesis by (auto simp: all_records_def handle_inv_def intro!: trans_le_add1)
qed

lemma run_handle_inv:
  "handle_ok plm \<Longrightarrow> run xs plm = Returns plm' \<Longrightarrow> handle_ok plm'"
proof (induction xs arbitrary: plm)
  case Nil
  then show ?case by simp
next
  case (Cons x xs)
  then show ?case
    by (auto split: outcome.splits dest: exec_handle_inv)
qed

lemma New_handle_inv: "handle_ok (NewProcessLifecycleManager t0)"
  by (simp add: all_records_def NewProcessLifecycleManager_def)

subsection \<open>The restart budget\<close>


subsection \<open>Keys of the registry\<close>

lemma StopProcess_keys:
  "nextProcessID (snd (StopProcess i se plm)) = nextProcessID plm \<and>
   (processes (snd (StopProcess i se plm)) k = None \<longleftrightarrow> processes plm k = None)"
  by (simp add: StopProcess_def stop_finish_def Let_def
           split: option.splits stop_env.splits)

lemma stopAll_keys:
  "nextProcessID (stopAll js se plm) = nextProcessID plm \<and>
   (processes (stopAll js se plm) k = None \<longleftrightarrow> processes plm k = None)"
  by (induction js arbitrary: plm) (simp_all add: StopProcess_keys)

lemma StartProcess_keys:
  "StartProcess i lr plm = Returns (e, plm') \<Longrightarrow>
   nextProcessID plm' = nextProcessID plm \<and>
   (processes plm' k = None \<longleftrightarrow> processes plm k = None)"
  by (auto simp: StartProcess_def Let_def
           split: option.splits list.splits launch_result.splits if_splits)

lemma RestartProcess_keys:
  assumes "RestartProcess i se lr plm = Returns (e, plm')"
  shows "nextProcessID plm' = nextProcessID plm \<and>
   (processes plm' k = None \<longleftrightarrow> processes plm k = None)"
proof (cases "processes plm i")
  case None
  with assms show ?thesis by (simp add: RestartProcess_def)
next
  case (Some p)
  show ?thesis
  proof (cases "sint (RestartCount p) < sint (MaxRestarts p)")
    case False
    with Some assms show ?thesis by (simp add: RestartProcess_def)
  next
    case True
    let ?w = "advance (2 * second) (emit (EvSleep (2 * second))
                (update_process i (\<lambda>p. p\<lparr>RestartCount := RestartCount p + 1\<rparr>)
                   (set_State i StateRestarting plm)))"
    have "StartProcess i lr ?w = Returns (e, plm')"
      using RestartProcess_start [OF Some True] assms by simp
    from StartProcess_keys [OF this, of k] show ?thesis
      using Some by simp
  qed
qed

lemma monitorProcess_keys:
  "nextProcessID (snd (monitorProcess i sel alive plm)) = nextProcessID plm \<and>
   (processes (snd (monitorProcess i sel alive plm)) k = None \<longleftrightarrow> processes plm k = None)"
  by (simp add: monitorProcess_def Let_def
           split: option.splits select_case.splits)

lemma RestartProcess_mark_keys:
  "nextProcessID (RestartProcess_mark i se plm) = nextProcessID plm \<and>
   (processes (RestartProcess_mark i se plm) k = None \<longleftrightarrow> processes plm k = None)"
  by (cases "processes plm i") (simp_all add: RestartProcess_mark_eq RestartProcess_mark_None)

lemma exec_keys:
  assumes "\<not> is_create x" and "exec x plm = Returns plm'"
  shows "nextProcessID plm' = nextProcessID plm \<and>
         (processes plm' k = None \<longleftrightarrow> processes plm k = None)"
proof (cases x)
  case (OpCreate name command)
  with assms show ?thesis by simp
next
  case (OpStart i lr)
  with assms obtain e where "StartProcess i lr plm = Returns (e, plm')"
    by (auto split: outcome.splits)
  then show ?thesis by (rule StartProcess_keys)
next
  case (OpStop i se)
  with assms show ?thesis using StopProcess_keys [of i se plm k] by simp
next
  case (OpRestart i se lr)
  with assms obtain e where "RestartProcess i se lr plm = Returns (e, plm')"
    by (auto split: outcome.splits)
  then show ?thesis by (rule RestartProcess_keys)
next
  case (OpMonitor i sel alive)
  with assms show ?thesis using monitorProcess_keys [of i sel alive plm k] by simp
next
  case (OpShutdownAll order se)
  let ?w = "emit EvClose (plm\<lparr>shutdownChannel := True\<rparr>)"
  from OpShutdownAll assms have "plm' = stopAll (runningProcesses order ?w) se ?w"
    by (simp add: ShutdownAll_def Let_def split: if_splits)
  then show ?thesis
    using stopAll_keys [of "runningProcesses order ?w" se ?w k] by simp
next
  case (OpSetEnv i env)
  with assms show ?thesis
    by (auto simp: SetProcessEnvironment_def split: option.splits if_splits)
next
  case (OpSetDeps i deps)
  with assms show ?thesis
    by (auto simp: SetProcessDependencies_def split: option.splits if_splits)
next
  case (OpRestartTest i)
  with assms show ?thesis by simp
next
  case (OpRestartMark i se)
  with assms show ?thesis using RestartProcess_mark_keys [of i se plm k] by simp
next
  case (OpRestartFinish i lr)
  with assms obtain e where
    "StartProcess i lr (advance (2 * second) (emit (EvSleep (2 * second)) plm)) = Returns (e, plm')"
    by (auto simp: RestartProcess_finish_def split: outcome.splits)
  from StartProcess_keys [OF this, of k] show ?thesis by simp
next
  case (OpAdvance d)
  with assms show ?thesis by auto
qed

lemma ids_inv_mono: "ids_inv n plm \<Longrightarrow> n \<le> m \<Longrightarrow> ids_inv m plm"
  by (auto simp: ids_inv_def)

lemma ids_inv_fresh: "ids_inv n plm \<Longrightarrow> processes plm (nextProcessID plm) = None"
  by (cases "processes plm (nextProcessID plm)") (auto simp: ids_inv_def)

lemma unat_next:
  assumes "unat (k::64 word) \<le> n + 1" and "n + 2 < 2 ^ 64"
  shows "unat (k + 1) = unat k + 1"
proof -
  have "unat k + unat (1::64 word) < 2 ^ LENGTH(64)"
    using assms by simp
  then show ?thesis
    using unat_add_lem [of k 1] by simp
qed

lemma CreateProcess_ids_inv:
  assumes "ids_inv n plm" and "n + 2 < 2 ^ 64"
  shows "ids_inv (Suc n) (snd (CreateProcess name command plm))"
proof -
  have u: "unat (nextProcessID plm + 1) = unat (nextProcessID plm) + 1"
    using assms unat_next [of "nextProcessID plm" n] by (simp add: ids_inv_def)
  have k: "unat k < unat (nextProcessID plm) + 1"
    if "((processes plm)(nextProcessID plm \<mapsto> q)) k = Some p" for k p q
  proof (cases "k = nextProcessID plm")
    case True
    then show ?thesis by simp
  next
    case False
    with that have "processes plm k = Some p" by simp
    with assms(1) have "unat k < unat (nextProcessID plm)" by (simp add: ids_inv_def)
    then show ?thesis by simp
  qed
  have "unat (nextProcessID plm) \<le> n + 1"
    using assms(1) by (simp add: ids_inv_def)
  then show ?thesis
    unfolding ids_inv_def CreateProcess_def Let_def using k by (simp add: u)
qed

lemma exec_ids_inv:
  assumes "ids_inv n plm" and "n + 2 < 2 ^ 64" and "exec x plm = Returns plm'"
  shows "ids_inv (Suc n) plm'"
proof (cases "is_create x")
  case True
  then obtain name command where "x = OpCreate name command" by (cases x) auto
  with assms(3) have "plm' = snd (CreateProcess name command plm)" by simp
  with CreateProcess_ids_inv [OF assms(1,2)] show ?thesis by simp
next
  case False
  have nx: "nextProcessID plm' = nextProcessID plm"
    using exec_keys [OF False assms(3)] by simp
  have "unat k < unat (nextProcessID plm)" if "processes plm' k = Some p" for k p
  proof -
    from that exec_keys [OF False assms(3), of k] obtain q where "processes plm k = Some q"
      by auto
    with assms(1) show ?thesis by (simp add: ids_inv_def)
  qed
  with assms(1) have "ids_inv n plm'"
    by (simp add: ids_inv_def nx)
  then show ?thesis by (rule ids_inv_mono) simp
qed

lemma run_ids_inv:
  "ids_inv n plm \<Longrightarrow> n + length xs + 1 < 2 ^ 64 \<Longrightarrow> run xs plm = Returns plm'
   \<Longrightarrow> ids_inv (n + length xs) plm'"
proof (induction xs arbitrary: plm n)
  case Nil
  then show ?case by simp
next
  case (Cons x xs)
  from Cons.prems(3) obtain plm1 where x: "exec x plm = Returns plm1"
    and r: "run xs plm1 = Returns plm'"
    by (auto split: outcome.splits)
  have "n + 2 < 2 ^ 64" using Cons.prems(2) by simp
  with Cons.prems(1) have "ids_inv (Suc n) plm1"
    using x by (rule exec_ids_inv)
  from Cons.IH [OF this _ r] Cons.prems(2) show ?case by simp
qed

lemma New_ids_inv: "ids_inv 0 (NewProcessLifecycleManager t0)"
  by (simp add: ids_inv_def NewProcessLifecycleManager_def)

subsection \<open>Launches made by restarts\<close>














lemma CreateProcess_other:
  "k \<noteq> nextProcessID plm \<Longrightarrow>
   processes (snd (CreateProcess name command plm)) k = processes plm k"
  by (simp add: CreateProcess_def Let_def)









subsection \<open>The demo\<close>

lemmas demo_defs = demo_process_def demo_created_def demo_cmd_def demo_record_def
  demo_start_events_def demo_running_def demo_stopped_def demo_ops_def
  NewProcessLifecycleManager_def CreateProcess_def Let_def

lemma demo_record_1: "processes demo_running 1 = Some (demo_record 4242)"
  by (simp add: demo_running_def)

lemma demo_running_run: "run demo_ops (NewProcessLifecycleManager 0) = Returns demo_running"
  by (simp add: demo_defs StartProcess_def checkDependencies_def Let_def
        set_State_def update_process_def emit_def)

lemma demo_stop: "StopProcess 1 (ExitsInGrace second) demo_running = (None, demo_stopped)"
  by (simp add: demo_defs StopProcess_def stop_finish_def Let_def
        set_State_def update_process_def emit_def advance_def)

lemma run_append:
  "run (xs @ ys) plm = (case run xs plm of Panics \<Rightarrow> Panics | Returns plm' \<Rightarrow> run ys plm')"
  by (induction xs arbitrary: plm) (simp_all split: outcome.splits)

lemma StopProcess_PID:
  "map_option PID (processes (snd (StopProcess i se plm)) k) = map_option PID (processes plm k)"
  by (simp add: StopProcess_def stop_finish_def Let_def split: option.splits stop_env.splits)

subsection \<open>More about the demo, shutdown and the monitor\<close>

lemma demo_record_fields:
  "State (demo_record pid) = StateRunning" "PID (demo_record pid) = pid"
  "cmd (demo_record pid) = Some (demo_cmd pid)" "Command (demo_record pid) = [''sleep'', ''30'']"
  "Dependencies (demo_record pid) = []" "StartTime (demo_record pid) = 0"
  "RestartCount (demo_record pid) = 0" "MaxRestarts (demo_record pid) = 3"
  "HealthCheck (demo_record pid) = DefaultHealthChecker" "ID (demo_record pid) = 1"
  "WorkDir (demo_record pid) = ''/tmp''" "Environment (demo_record pid) = Map.empty"
  "EndTime (demo_record pid) = None"
  by (simp_all add: demo_defs)

lemma demo_running_fields:
  "processes demo_running = [1 \<mapsto> demo_record 4242]" "history demo_running = demo_start_events"
  "clock demo_running = 0" "shutdownChannel demo_running = False" "nextProcessID demo_running = 2"
  by (simp_all add: demo_defs)

lemma demo_deps_ok: "checkDependencies demo_running (demo_record 4242)"
  by (simp add: checkDependencies_def demo_record_fields)

lemmas run_defs = StartProcess_def StopProcess_def RestartProcess_def stop_finish_def
  RestartProcess_test_def RestartProcess_mark_def RestartProcess_finish_def
  checkDependencies_def set_State_def update_process_def emit_def advance_def Let_def

lemma demo_shutdown_first:
  "ShutdownAll [1] demo_stops demo_running = Returns demo_shutdown"
  by (simp add: ShutdownAll_def runningProcesses_def demo_stops_def demo_shutdown_def demo_defs run_defs)

lemma StopProcess_shutdownChannel:
  "shutdownChannel (snd (StopProcess i se plm)) = shutdownChannel plm"
  by (simp add: StopProcess_def stop_finish_def Let_def split: option.splits stop_env.splits)

lemma stopAll_shutdownChannel:
  "shutdownChannel (stopAll js se plm) = shutdownChannel plm"
  by (induction js arbitrary: plm) (simp_all add: StopProcess_shutdownChannel)

lemma ShutdownAll_again:
  "ShutdownAll order se plm = Returns plm' \<Longrightarrow> ShutdownAll order' se' plm' = Panics"
  by (auto simp: ShutdownAll_def Let_def stopAll_shutdownChannel split: if_splits)

lemma demo_restart:
  "RestartProcess 1 (ExitsInGrace second) (Launched 4343) demo_running = Returns (None, demo_restarted)"
  by (simp add: demo_restarted_def demo_restart_events_def demo_defs run_defs)


lemma run_no_create_next:
  "\<not> list_ex is_create ops \<Longrightarrow> run ops plm = Returns plm'
   \<Longrightarrow> nextProcessID plm' = nextProcessID plm"
proof (induction ops arbitrary: plm)
  case Nil
  then show ?case by simp
next
  case (Cons x xs)
  from Cons.prems obtain plm1 where x: "exec x plm = Returns plm1"
    and r: "run xs plm1 = Returns plm'"
    by (auto split: outcome.splits)
  from Cons.prems(1) have nc: "\<not> is_create x" "\<not> list_ex is_create xs" by simp_all
  from exec_keys [OF nc(1) x] have "nextProcessID plm1 = nextProcessID plm" by simp
  with Cons.IH [OF nc(2) r] show ?case by simp
qed

lemma monitorProcess_health_failure:
  assumes "processes plm i = Some p" and "State p = StateRunning"
    and "\<not> Check (HealthCheck p) p alive"
  shows "history (snd (monitorProcess i TickerFired alive plm)) =
           history plm @ EvState i StateFailed #
             (if sint (RestartCount p) < sint (MaxRestarts p) then [EvGoRestart (ID p)] else [])"
    and "map_option State (processes (snd (monitorProcess i TickerFired alive plm)) i) = Some StateFailed"
  using assms by (simp_all add: monitorProcess_def Let_def)













lemma StopProcess_key_inv:
  "key_inv plm \<Longrightarrow> key_inv (snd (StopProcess i se plm))"
  by (auto simp: StopProcess_def stop_finish_def Let_def key_inv_def
           split: option.splits stop_env.splits if_splits)

lemma stopAll_key_inv:
  "key_inv plm \<Longrightarrow> key_inv (stopAll js se plm)"
  by (induction js arbitrary: plm) (simp_all add: StopProcess_key_inv)

lemma StartProcess_key_inv:
  "key_inv plm \<Longrightarrow> StartProcess i lr plm = Returns (e, plm') \<Longrightarrow> key_inv plm'"
  by (auto simp: StartProcess_def Let_def key_inv_def
           split: option.splits list.splits launch_result.splits if_splits)

lemma RestartProcess_key_inv:
  assumes "key_inv plm" and "RestartProcess i se lr plm = Returns (e, plm')"
  shows "key_inv plm'"
proof (cases "processes plm i")
  case None
  with assms show ?thesis by (simp add: RestartProcess_def)
next
  case (Some p)
  show ?thesis
  proof (cases "sint (RestartCount p) < sint (MaxRestarts p)")
    case False
    with Some assms show ?thesis by (simp add: RestartProcess_def)
  next
    case True
    let ?w = "advance (2 * second) (emit (EvSleep (2 * second))
                (update_process i (\<lambda>p. p\<lparr>RestartCount := RestartCount p + 1\<rparr>)
                   (set_State i StateRestarting plm)))"
    have "key_inv ?w"
      using assms(1) by (auto simp: key_inv_def split: if_splits)
    moreover have "StartProcess i lr ?w = Returns (e, plm')"
      using RestartProcess_start [OF Some True] assms(2) by simp
    ultimately show ?thesis
      by (rule StartProcess_key_inv)
  qed
qed

lemma monitorProcess_key_inv:
  "key_inv plm \<Longrightarrow> key_inv (snd (monitorProcess i sel alive plm))"
  by (auto simp: monitorProcess_def Let_def key_inv_def
           split: option.splits select_case.splits if_splits)

lemma RestartProcess_mark_key_inv:
  "key_inv plm \<Longrightarrow> key_inv (RestartProcess_mark i se plm)"
proof (cases "processes plm i")
  case None
  then show "key_inv plm \<Longrightarrow> ?thesis" by (simp add: RestartProcess_mark_None)
next
  case (Some p)
  show "key_inv plm \<Longrightarrow> ?thesis"
    unfolding RestartProcess_mark_eq [OF Some]
    by (auto simp: key_inv_def split: if_splits)
qed

lemma exec_key_inv:
  assumes "key_inv plm" and "exec x plm = Returns plm'"
  shows "key_inv plm'"
proof (cases x)
  case (OpCreate name command)
  with assms show ?thesis
    by (auto simp: CreateProcess_def Let_def key_inv_def split: if_splits)
next
  case (OpStart i lr)
  with assms show ?thesis
    by (auto split: outcome.splits dest: StartProcess_key_inv)
next
  case (OpStop i se)
  with assms show ?thesis by (auto simp: StopProcess_key_inv)
next
  case (OpRestart i se lr)
  with assms show ?thesis
    by (auto split: outcome.splits dest: RestartProcess_key_inv)
next
  case (OpMonitor i sel alive)
  with assms show ?thesis by (auto simp: monitorProcess_key_inv)
next
  case (OpShutdownAll order se)
  have "key_inv (emit EvClose (plm\<lparr>shutdownChannel := True\<rparr>))"
    using assms(1) by (simp add: key_inv_def)
  with OpShutdownAll assms show ?thesis
    by (auto simp: ShutdownAll_def Let_def stopAll_key_inv split: if_splits)
next
  case (OpSetEnv i env)
  with assms show ?thesis
    by (auto simp: SetProcessEnvironment_def key_inv_def split: option.splits if_splits)
next
  case (OpSetDeps i deps)
  with assms show ?thesis
    by (auto simp: SetProcessDependencies_def key_inv_def split: option.splits if_splits)
next
  case (OpRestartTest i)
  with assms show ?thesis by simp
next
  case (OpRestartMark i se)
  with assms have "plm' = RestartProcess_mark i se plm" by simp
  with assms(1) show ?thesis by (simp add: RestartProcess_mark_key_inv)
next
  case (OpRestartFinish i lr)
  with assms obtain e where
    "StartProcess i lr (advance (2 * second) (emit (EvSleep (2 * second)) plm)) = Returns (e, plm')"
    by (auto simp: RestartProcess_finish_def split: outcome.splits)
  moreover have "key_inv (advance (2 * second) (emit (EvSleep (2 * second)) plm))"
    using assms(1) by (simp add: key_inv_def)
  ultimately show ?thesis
    using StartProcess_key_inv  by blast
next
  case (OpAdvance d)
  with assms show ?thesis by (auto simp: key_inv_def)
qed

lemma run_key_inv:
  "key_inv plm \<Longrightarrow> run xs plm = Returns plm' \<Longrightarrow> key_inv plm'"
proof (induction xs arbitrary: plm)
  case Nil
  then show ?case by simp
next
  case (Cons x xs)
  then show ?case
    by (auto split: outcome.splits dest: exec_key_inv)
qed

lemma New_key_inv: "key_inv (NewProcessLifecycleManager t0)"
  by (simp add: key_inv_def NewProcessLifecycleManager_def)

lemma StopProcess_running_after:
  assumes "processes (snd (StopProcess i se plm)) k = Some p'" and "State p' = StateRunning"
  shows "k \<noteq> i \<and> processes plm k = Some p'"
  using assms
  by (auto simp: StopProcess_def stop_finish_def Let_def
           split: option.splits stop_env.splits if_splits)

lemma stopAll_running_after:
  "processes (stopAll js se plm) k = Some p' \<Longrightarrow> State p' = StateRunning
   \<Longrightarrow> k \<notin> set js \<and> processes plm k = Some p'"
proof (induction js arbitrary: plm)
  case Nil
  then show ?case by simp
next
  case (Cons i rest)
  from Cons.prems have "processes (stopAll rest se (snd (StopProcess i (se i) plm))) k = Some p'"
    by simp
  from Cons.IH [OF this Cons.prems(2)]
  have r: "k \<notin> set rest" and s: "processes (snd (StopProcess i (se i) plm)) k = Some p'"
    by simp_all
  from StopProcess_running_after [OF s Cons.prems(2)] r show ?case by simp
qed

lemma runningProcesses_mem:
  "k \<in> set order \<Longrightarrow> processes plm k = Some p \<Longrightarrow> State p = StateRunning
   \<Longrightarrow> ID p \<in> set (runningProcesses order plm)"
  by (force simp: runningProcesses_def)

lemma ShutdownAll_none_running:
  assumes "ShutdownAll order se plm = Returns plm'"
    and "key_inv plm"
    and "dom (processes plm) \<subseteq> set order"
    and "processes plm' k = Some p'"
  shows "State p' \<noteq> StateRunning"
proof
  assume run: "State p' = StateRunning"
  let ?w = "emit EvClose (plm\<lparr>shutdownChannel := True\<rparr>)"
  from assms(1) have "plm' = stopAll (runningProcesses order ?w) se ?w"
    by (simp add: ShutdownAll_def Let_def split: if_splits)
  with assms(4) have "processes (stopAll (runningProcesses order ?w) se ?w) k = Some p'"
    by simp
  from stopAll_running_after [OF this run]
  have n: "k \<notin> set (runningProcesses order ?w)" and p: "processes plm k = Some p'"
    by simp_all
  from p assms(2) have "ID p' = k" by (simp add: key_inv_def)
  moreover from p assms(3) have "k \<in> set order" by blast
  then have "ID p' \<in> set (runningProcesses order ?w)"
    using p run by (intro runningProcesses_mem [of k]) simp_all
  ultimately show False using n by simp
qed

subsection \<open>The PID field is written by StartProcess only\<close>

lemma PID_kept:
  "map_option PID r = map_option PID r0 \<Longrightarrow> r0 = Some p \<Longrightarrow> \<exists>p'. r = Some p' \<and> PID p' = PID p"
  by (cases r) auto

lemma stopAll_PID:
  "map_option PID (processes (stopAll js se plm) k) = map_option PID (processes plm k)"
  by (induction js arbitrary: plm) (simp_all add: StopProcess_PID)

lemma monitorProcess_PID:
  "map_option PID (processes (snd (monitorProcess i sel alive plm)) k) =
   map_option PID (processes plm k)"
  by (simp add: monitorProcess_def Let_def split: option.splits select_case.splits)

lemma RestartProcess_mark_PID:
  "map_option PID (processes (RestartProcess_mark j se plm) k) = map_option PID (processes plm k)"
  by (cases "processes plm j") (simp_all add: RestartProcess_mark_eq RestartProcess_mark_None)

lemma StartProcess_PID:
  assumes "StartProcess j lr plm = Returns (e, plm')" and "processes plm i = Some p"
  shows "\<exists>p'. processes plm' i = Some p' \<and> (PID p' = PID p \<or> j = i \<and> lr = Launched (PID p'))"
  using assms
  by (auto simp: StartProcess_def Let_def
           split: option.splits list.splits launch_result.splits if_splits)

lemma RestartProcess_finish_PID:
  assumes "RestartProcess_finish j lr plm = Returns (e, plm')" and "processes plm i = Some p"
  shows "\<exists>p'. processes plm' i = Some p' \<and> (PID p' = PID p \<or> j = i \<and> lr = Launched (PID p'))"
  using StartProcess_PID [of j lr "advance (2 * second) (emit (EvSleep (2 * second)) plm)" e plm' i p]
    assms by (simp add: RestartProcess_finish_def)

lemma RestartProcess_PID:
  assumes "RestartProcess j se lr plm = Returns (e, plm')" and "processes plm i = Some p"
  shows "\<exists>p'. processes plm' i = Some p' \<and> (PID p' = PID p \<or> j = i \<and> lr = Launched (PID p'))"
proof (cases "RestartProcess_test j plm")
  case (Some e')
  with assms show ?thesis by (simp add: RestartProcess_phases)
next
  case None
  with assms(1) have f: "RestartProcess_finish j lr (RestartProcess_mark j se plm) = Returns (e, plm')"
    by (simp add: RestartProcess_phases)
  from PID_kept [OF RestartProcess_mark_PID assms(2)]
  obtain q where q: "processes (RestartProcess_mark j se plm) i = Some q" "PID q = PID p"
    by blast
  from RestartProcess_finish_PID [OF f q(1)] q(2) show ?thesis by simp
qed

lemma exec_PID:
  assumes "processes plm (nextProcessID plm) = None"
    and "processes plm i = Some p"
    and "exec x plm = Returns plm'"
  shows "\<exists>p'. processes plm' i = Some p' \<and> (PID p' = PID p \<or> started_pid i x = Some (PID p'))"
proof (cases x)
  case (OpCreate name command)
  from assms(1,2) have "i \<noteq> nextProcessID plm" by auto
  with OpCreate assms(2,3) show ?thesis by (auto simp: CreateProcess_other)
next
  case (OpStart j lr)
  with assms obtain e where "StartProcess j lr plm = Returns (e, plm')"
    by (auto split: outcome.splits)
  from StartProcess_PID [OF this assms(2)] OpStart show ?thesis by auto
next
  case (OpStop j se)
  with assms(3) have "map_option PID (processes plm' i) = map_option PID (processes plm i)"
    by (auto simp: StopProcess_PID)
  from PID_kept [OF this assms(2)] show ?thesis by blast
next
  case (OpRestart j se lr)
  with assms obtain e where "RestartProcess j se lr plm = Returns (e, plm')"
    by (auto split: outcome.splits)
  from RestartProcess_PID [OF this assms(2)] OpRestart show ?thesis by auto
next
  case (OpRestartTest j)
  with assms(2,3) show ?thesis by auto
next
  case (OpRestartMark j se)
  with assms(3) have "map_option PID (processes plm' i) = map_option PID (processes plm i)"
    by (auto simp: RestartProcess_mark_PID)
  from PID_kept [OF this assms(2)] show ?thesis by blast
next
  case (OpRestartFinish j lr)
  with assms obtain e where "RestartProcess_finish j lr plm = Returns (e, plm')"
    by (auto split: outcome.splits)
  from RestartProcess_finish_PID [OF this assms(2)] OpRestartFinish show ?thesis by auto
next
  case (OpMonitor j sel alive)
  with assms(3) have "map_option PID (processes plm' i) = map_option PID (processes plm i)"
    by (auto simp: monitorProcess_PID)
  from PID_kept [OF this assms(2)] show ?thesis by blast
next
  case (OpShutdownAll order se)
  let ?w = "emit EvClose (plm\<lparr>shutdownChannel := True\<rparr>)"
  from OpShutdownAll assms(3) have "plm' = stopAll (runningProcesses order ?w) se ?w"
    by (simp add: ShutdownAll_def Let_def split: if_splits)
  then have "map_option PID (processes plm' i) = map_option PID (processes plm i)"
    by (simp add: stopAll_PID)
  from PID_kept [OF this assms(2)] show ?thesis by blast
next
  case (OpSetEnv j env)
  with assms(2,3) show ?thesis
    by (auto simp: SetProcessEnvironment_def split: option.splits if_splits)
next
  case (OpSetDeps j deps)
  with assms(2,3) show ?thesis
    by (auto simp: SetProcessDependencies_def split: option.splits if_splits)
next
  case (OpAdvance d)
  with assms(2,3) show ?thesis by auto
qed

section \<open>The claims\<close>

text \<open>
  C1 (as amended). Between operations, in every state reached from a new manager by a run
  in which the launcher returns non-zero pids: a record in state Running or Stopping has
  a non-zero PID, a record in state Created has PID zero, and no record rests in state
  Starting. The PID field is never reset: \<open>StopProcess\<close> leaves it as it was, so a record
  that has been stopped keeps the pid of its last run; and whatever step comes next (stop,
  restart or a part of it, monitor, shutdown, a setter, create; fewer than \<open>2^64 - 1\<close>
  operations so far), the record is still there and its PID is what it was, unless the step
  launches the record's process, and then it is the pid the launcher returned.
\<close>

theorem pid_field_between_operations:
  assumes "run ops (NewProcessLifecycleManager t0) = Returns plm"
    and "pids_nonzero ops"
    and "processes plm i = Some p"
  shows "(State p = StateRunning \<or> State p = StateStopping \<longrightarrow> PID p \<noteq> 0) \<and>
         (State p = StateCreated \<longrightarrow> PID p = 0) \<and>
         State p \<noteq> StateStarting \<and>
         map_option PID (processes (snd (StopProcess i se plm)) i) = Some (PID p) \<and>
         (length ops < 2 ^ 64 - 1 \<and> exec x plm = Returns plm' \<longrightarrow>
            (\<exists>p'. processes plm' i = Some p' \<and>
                  (PID p' = PID p \<or> started_pid i x = Some (PID p'))))"
proof -
  have "all_records pid_inv plm"
    using New_pid_inv assms(2,1) by (rule run_pid_inv)
  with assms(3) have "pid_inv p" by (simp add: all_records_def)
  moreover have "map_option PID (processes (snd (StopProcess i se plm)) i) = Some (PID p)"
    using assms(3) by (simp add: StopProcess_PID)
  moreover have "\<exists>p'. processes plm' i = Some p' \<and>
                  (PID p' = PID p \<or> started_pid i x = Some (PID p'))"
    if l: "length ops < 2 ^ 64 - 1" and x: "exec x plm = Returns plm'"
  proof -
    have "0 + length ops + 1 < (2::nat) ^ 64" using l by simp
    with New_ids_inv have "ids_inv (0 + length ops) plm"
      using assms(1) by (rule run_ids_inv)
    then have "processes plm (nextProcessID plm) = None" by (rule ids_inv_fresh)
    then show ?thesis using assms(3) x by (rule exec_PID)
  qed
  ultimately show ?thesis by (simp add: pid_inv_def)
qed

text \<open>
  Witness for C1: the demo's process is Running with pid 4242; stopping it leaves the
  PID field at 4242, and so does the monitor when the health check fails and it sets the
  state to Failed.
\<close>

theorem pid_field_between_operations_witness:
  "run demo_ops (NewProcessLifecycleManager 0) = Returns demo_running \<and>
   pids_nonzero demo_ops \<and>
   processes demo_running 1 = Some (demo_record 4242) \<and>
   State (demo_record 4242) = StateRunning \<and>
   PID (demo_record 4242) \<noteq> 0 \<and>
   map_option PID (processes (snd (StopProcess 1 (ExitsInGrace second) demo_running)) 1)
     = Some (PID (demo_record 4242)) \<and>
   length demo_ops < 2 ^ 64 - 1 \<and>
   exec (OpMonitor 1 TickerFired False) demo_running
     = Returns (snd (monitorProcess 1 TickerFired False demo_running)) \<and>
   map_option State (processes (snd (monitorProcess 1 TickerFired False demo_running)) 1)
     = Some StateFailed \<and>
   map_option PID (processes (snd (monitorProcess 1 TickerFired False demo_running)) 1)
     = Some 4242"
proof -
  have p: "pids_nonzero demo_ops" by (simp add: pids_nonzero_def demo_ops_def)
  have s: "State (demo_record 4242) = StateRunning" by (simp add: demo_record_def)
  have l: "length demo_ops < 2 ^ 64 - 1" by (simp add: demo_ops_def)
  have f: "map_option State (processes (snd (monitorProcess 1 TickerFired False demo_running)) 1)
             = Some StateFailed"
    using monitorProcess_health_failure(2) [OF demo_record_1 s, of False]
    by (simp add: demo_record_def demo_process_def CreateProcess_def Let_def)
  from pid_field_between_operations [OF demo_running_run p demo_record_1,
      of "ExitsInGrace second" "OpMonitor 1 TickerFired False"
         "snd (monitorProcess 1 TickerFired False demo_running)"]
  show ?thesis using demo_running_run p demo_record_1 s l f
    by (auto simp: demo_record_def demo_process_def CreateProcess_def Let_def)
qed

text \<open>
  Counterexample to C1 as stated: after create, start and stop the record is in state
  Stopped, which is not one of Starting, Running, Stopping, and its PID is 4242, not zero.
\<close>

theorem stopped_record_keeps_pid:
  "run (demo_ops @ [OpStop 1 (ExitsInGrace second)]) (NewProcessLifecycleManager 0)
     = Returns demo_stopped \<and>
   map_option State (processes demo_stopped 1) = Some StateStopped \<and>
   map_option PID (processes demo_stopped 1) = Some 4242 \<and>
   (4242 :: go_int) \<noteq> 0"
proof -
  have "run (demo_ops @ [OpStop 1 (ExitsInGrace second)]) (NewProcessLifecycleManager 0)
          = Returns demo_stopped"
    using demo_running_run demo_stop by (simp add: run_append)
  then show ?thesis by (simp add: demo_stopped_def demo_record_def)
qed

text \<open>
  C2 (as amended). \<open>StartProcess\<close> does not look at the record's state. For every
  registered record, whatever its state, whose dependencies are satisfied and whose command
  is not empty, it attempts the launch: when the launch succeeds it returns no error, the
  record becomes Running with the new pid and a monitor is spawned; when the launch fails it
  returns the start error and the record becomes Failed.
\<close>

theorem StartProcess_ignores_state:
  assumes "processes plm i = Some p" and "checkDependencies plm p" and "Command p \<noteq> []"
  shows "(\<exists>plm'. StartProcess i (Launched pid) plm = Returns (None, plm') \<and>
            map_option State (processes plm' i) = Some StateRunning \<and>
            map_option PID (processes plm' i) = Some pid \<and>
            history plm' = history plm @
              [EvState i StateStarting, EvLaunch i, EvState i StateRunning, EvGoMonitor i]) \<and>
         (\<exists>plm'. StartProcess i LaunchError plm = Returns (Some (StartFailed i), plm') \<and>
            map_option State (processes plm' i) = Some StateFailed \<and>
            history plm' = history plm @
              [EvState i StateStarting, EvLaunch i, EvState i StateFailed])"
  using StartProcess_Launched [OF assms, of pid] StartProcess_LaunchError [OF assms]
  by simp

text \<open>
  Witness for C2: the demo's record, which is Running, is started again.
\<close>

theorem StartProcess_ignores_state_witness:
  "processes demo_running 1 = Some (demo_record 4242) \<and>
   State (demo_record 4242) = StateRunning \<and>
   checkDependencies demo_running (demo_record 4242) \<and>
   Command (demo_record 4242) \<noteq> [] \<and>
   (\<exists>plm'. StartProcess 1 (Launched 4343) demo_running = Returns (None, plm') \<and>
      map_option State (processes plm' 1) = Some StateRunning \<and>
      map_option PID (processes plm' 1) = Some 4343 \<and>
      history plm' = history demo_running @
        [EvState 1 StateStarting, EvLaunch 1, EvState 1 StateRunning, EvGoMonitor 1])"
proof -
  have c: "Command (demo_record 4242) \<noteq> []" by (simp add: demo_record_fields)
  from StartProcess_ignores_state [OF demo_record_1 demo_deps_ok c, of 4343]
  show ?thesis using demo_record_1 demo_deps_ok c by (simp add: demo_record_fields)
qed

text \<open>
  Counterexample to C2 as stated: \<open>StartProcess\<close> on the Running record of the demo
  returns no error, launches a second process (pid 4343) and spawns a second monitor.
\<close>

theorem running_record_started_again:
  "map_option State (processes demo_running 1) = Some StateRunning \<and>
   StartProcess 1 (Launched 4343) demo_running = Returns (None, demo_relaunched) \<and>
   map_option State (processes demo_relaunched 1) = Some StateRunning \<and>
   map_option PID (processes demo_relaunched 1) = Some 4343 \<and>
   history demo_relaunched = history demo_running @
     [EvState 1 StateStarting, EvLaunch 1, EvState 1 StateRunning, EvGoMonitor 1]"
proof -
  have c: "Command (demo_record 4242) \<noteq> []" by (simp add: demo_record_fields)
  have "StartProcess 1 (Launched 4343) demo_running = Returns (None, demo_relaunched)"
    unfolding StartProcess_Launched [OF demo_record_1 demo_deps_ok c]
    by (simp add: demo_relaunched_def demo_running_fields demo_record_fields)
       (simp add: demo_defs)
  then show ?thesis
    by (simp add: demo_relaunched_def demo_running_fields demo_record_fields demo_start_events_def)
qed

text \<open>
  C3 (the code at the failing input). The first \<open>ShutdownAll\<close> of the demo stops the
  running process and returns; the record is then Stopped. The second call panics, because
  it closes the shutdown channel again, before it looks at any record.
\<close>

theorem ShutdownAll_twice_panics:
  "ShutdownAll [1] demo_stops demo_running = Returns demo_shutdown \<and>
   map_option State (processes demo_shutdown 1) = Some StateStopped \<and>
   ShutdownAll [1] demo_stops demo_shutdown = Panics"
  using demo_shutdown_first
  by (simp add: ShutdownAll_def demo_shutdown_def demo_stopped_def)

text \<open>
  C4 (as amended). For every record in state Running with a process handle, when
  delivering SIGTERM fails \<open>StopProcess\<close> returns the signal-delivery error at once: the
  only things it has done are the write of state Stopping and the failed SIGTERM. It sends
  no kill and waits for nothing, and the record does not reach Stopped in that call.
\<close>

theorem StopProcess_sigterm_failure:
  assumes "processes plm i = Some p" and "State p = StateRunning" and "cmd p = Some c"
  shows "fst (StopProcess i TermFails plm) = Some (SigtermFailed i) \<and>
         processes (snd (StopProcess i TermFails plm)) i = Some (p\<lparr>State := StateStopping\<rparr>) \<and>
         history (snd (StopProcess i TermFails plm)) =
           history plm @ [EvState i StateStopping, EvSignal (Pid c) SIGTERM False]"
  using StopProcess_TermFails [OF assms] by simp

text \<open>
  Witness for C4: the demo's Running record, with SIGTERM failing.
\<close>

theorem StopProcess_sigterm_failure_witness:
  "processes demo_running 1 = Some (demo_record 4242) \<and>
   State (demo_record 4242) = StateRunning \<and>
   cmd (demo_record 4242) = Some (demo_cmd 4242) \<and>
   fst (StopProcess 1 TermFails demo_running) = Some (SigtermFailed 1) \<and>
   processes (snd (StopProcess 1 TermFails demo_running)) 1
     = Some ((demo_record 4242)\<lparr>State := StateStopping\<rparr>) \<and>
   history (snd (StopProcess 1 TermFails demo_running)) =
     history demo_running @ [EvState 1 StateStopping, EvSignal (Pid (demo_cmd 4242)) SIGTERM False]"
  using StopProcess_sigterm_failure [OF demo_record_1, of "demo_cmd 4242"] demo_record_1
  by (simp add: demo_record_fields)

text \<open>
  Counterexample to C4 as stated: on the demo's Running record, with SIGTERM failing,
  \<open>StopProcess\<close> returns the error, sends no SIGKILL, and the record is left in state
  Stopping; it never reaches Stopped.
\<close>

theorem sigterm_failure_leaves_Stopping:
  "map_option State (processes demo_running 1) = Some StateRunning \<and>
   fst (StopProcess 1 TermFails demo_running) = Some (SigtermFailed 1) \<and>
   map_option State (processes (snd (StopProcess 1 TermFails demo_running)) 1)
     = Some StateStopping \<and>
   history (snd (StopProcess 1 TermFails demo_running)) =
     demo_start_events @ [EvState 1 StateStopping, EvSignal 4242 SIGTERM False] \<and>
   EvSignal 4242 SIGKILL True \<notin> set (history (snd (StopProcess 1 TermFails demo_running))) \<and>
   EvState 1 StateStopped \<notin> set (history (snd (StopProcess 1 TermFails demo_running)))"
proof -
  have "StopProcess 1 TermFails demo_running =
          (Some (SigtermFailed 1),
           demo_running\<lparr>processes := (processes demo_running)(1 \<mapsto> (demo_record 4242)\<lparr>State := StateStopping\<rparr>),
                history := history demo_running @ [EvState 1 StateStopping, EvSignal (Pid (demo_cmd 4242)) SIGTERM False]\<rparr>)"
    by (rule StopProcess_TermFails [OF demo_record_1]) (simp_all add: demo_record_fields)
  then show ?thesis
    by (simp add: demo_running_fields demo_record_fields demo_start_events_def demo_cmd_def)
qed

text \<open>
  C5 (the code at the failing input). \<open>RestartProcess\<close> on the demo's Running record,
  whose restart budget is not used up: the state is set to Restarting before it is tested
  for Running, so the stop is skipped. No signal is sent to process 4242 and nothing waits
  for it; after the pause a second process is launched while the first still runs.
\<close>

theorem RestartProcess_skips_stop:
  "map_option State (processes demo_running 1) = Some StateRunning \<and>
   RestartProcess 1 (ExitsInGrace second) (Launched 4343) demo_running
     = Returns (None, demo_restarted) \<and>
   history demo_restarted = history demo_running @
     [EvState 1 StateRestarting, EvSleep (2 * second), EvState 1 StateStarting, EvLaunch 1,
      EvState 1 StateRunning, EvGoMonitor 1] \<and>
   EvSignal 4242 SIGTERM True \<notin> set (history demo_restarted) \<and>
   EvWait 4242 \<notin> set (history demo_restarted) \<and>
   EvState 1 StateStopped \<notin> set (history demo_restarted)"
  using demo_restart
  by (simp add: demo_restarted_def demo_restart_events_def demo_running_fields
                demo_record_fields demo_start_events_def)

text \<open>
  C6 (as amended). \<open>CreateProcess\<close> has no error result and never fails: for every
  command, empty or not, it allocates a new record in state Created with the given name and
  command, stores it under its id, and returns it. The id is fresh (no record is stored
  under it before) in every state reached from a new manager by fewer than \<open>2^64 - 1\<close>
  operations.
\<close>

theorem CreateProcess_never_fails:
  assumes "run ops (NewProcessLifecycleManager t0) = Returns plm"
    and "length ops < 2 ^ 64 - 1"
  shows "State (fst (CreateProcess name command plm)) = StateCreated \<and>
         Name (fst (CreateProcess name command plm)) = name \<and>
         Command (fst (CreateProcess name command plm)) = command \<and>
         processes plm (ID (fst (CreateProcess name command plm))) = None \<and>
         processes (snd (CreateProcess name command plm)) =
           (processes plm)(ID (fst (CreateProcess name command plm))
                             \<mapsto> fst (CreateProcess name command plm))"
proof -
  have "0 + length ops + 1 < (2::nat) ^ 64" using assms(2) by simp
  with New_ids_inv have "ids_inv (0 + length ops) plm"
    using assms(1) by (rule run_ids_inv)
  then have "processes plm (nextProcessID plm) = None" by (rule ids_inv_fresh)
  then show ?thesis by (simp add: CreateProcess_def Let_def)
qed

text \<open>
  Witness for C6: a second process created after the demo's first has been started gets
  the unused id 2.
\<close>

theorem CreateProcess_never_fails_witness:
  "run demo_ops (NewProcessLifecycleManager 0) = Returns demo_running \<and>
   length demo_ops < 2 ^ 64 - 1 \<and>
   State (fst (CreateProcess ''ping'' [''ping'', ''localhost''] demo_running)) = StateCreated \<and>
   ID (fst (CreateProcess ''ping'' [''ping'', ''localhost''] demo_running)) = 2 \<and>
   processes demo_running 2 = None \<and>
   processes (snd (CreateProcess ''ping'' [''ping'', ''localhost''] demo_running)) 2 =
     Some (fst (CreateProcess ''ping'' [''ping'', ''localhost''] demo_running))"
proof -
  have l: "length demo_ops < 2 ^ 64 - 1" by (simp add: demo_ops_def)
  have i: "ID (fst (CreateProcess ''ping'' [''ping'', ''localhost''] demo_running)) = 2"
    by (simp add: CreateProcess_def Let_def demo_running_fields)
  from CreateProcess_never_fails [OF demo_running_run l, of "''ping''" "[''ping'', ''localhost'']"]
  show ?thesis using demo_running_run l i by simp
qed

text \<open>
  Counterexample to C6 as stated: \<open>CreateProcess\<close> with an empty command does not fail;
  it stores and returns a record in state Created, with id 1 and the empty command.
\<close>

theorem CreateProcess_accepts_empty_command:
  "Command (fst (CreateProcess ''empty'' [] (NewProcessLifecycleManager 0))) = [] \<and>
   State (fst (CreateProcess ''empty'' [] (NewProcessLifecycleManager 0))) = StateCreated \<and>
   ID (fst (CreateProcess ''empty'' [] (NewProcessLifecycleManager 0))) = 1 \<and>
   processes (snd (CreateProcess ''empty'' [] (NewProcessLifecycleManager 0))) 1 =
     Some (fst (CreateProcess ''empty'' [] (NewProcessLifecycleManager 0)))"
  by (simp add: CreateProcess_def Let_def NewProcessLifecycleManager_def)

text \<open>
  C7. For every record that has a dependency id which is not in the registry, or whose
  record is not in state Running, \<open>StartProcess\<close> returns the dependency error and
  changes nothing: the manager, and with it the record's state and the history of launches,
  is as before.
\<close>

theorem StartProcess_unsatisfied_dependency:
  assumes "processes plm processID = Some process"
    and "depID \<in> set (Dependencies process)"
    and "processes plm depID = None \<or>
         (\<exists>dep. processes plm depID = Some dep \<and> State dep \<noteq> StateRunning)"
  shows "StartProcess processID lr plm = Returns (Some (DependenciesNotSatisfied processID), plm)"
proof -
  have "\<not> checkDependencies plm process"
    using assms(2,3) unfolding checkDependencies_def checkDeps_iff by force
  with assms(1) show ?thesis
    by (simp add: StartProcess_def)
qed

text \<open>
  Witness for C7: process 2 depends on process 1, which has been created but not started.
\<close>

theorem StartProcess_unsatisfied_dependency_witness:
  "map_option Dependencies (processes demo_dependent 2) = Some [1] \<and>
   map_option State (processes demo_dependent 1) = Some StateCreated \<and>
   StartProcess 2 (Launched 4343) demo_dependent
     = Returns (Some (DependenciesNotSatisfied 2), demo_dependent)"
proof -
  obtain r where r: "processes demo_dependent 2 = Some r" "Dependencies r = [1]"
    by (simp add: demo_dependent_def demo_defs SetProcessDependencies_def update_process_def)
  have d: "processes demo_dependent 1 = Some demo_process" "State demo_process = StateCreated"
    by (simp_all add: demo_dependent_def demo_defs SetProcessDependencies_def update_process_def)
  have "1 \<in> set (Dependencies r)" using r by simp
  moreover have "processes demo_dependent 1 = None \<or>
      (\<exists>dep. processes demo_dependent 1 = Some dep \<and> State dep \<noteq> StateRunning)"
    using d by simp
  ultimately show ?thesis
    using StartProcess_unsatisfied_dependency [OF r(1), of 1 "Launched 4343"] r d by simp
qed




text \<open>
  C9. In every state reached from a new manager, for every record in state Running whose
  process exits after SIGTERM, within the grace period or after the kill: \<open>StopProcess\<close>
  returns no error, the record is Stopped, its end time is not before its start time, and
  the write of state Stopped comes last, after \<^verbatim>\<open>cmd.Wait()\<close> has returned.
\<close>

theorem StopProcess_reaches_Stopped:
  assumes "run ops (NewProcessLifecycleManager t0) = Returns plm"
    and "processes plm i = Some p"
    and "State p = StateRunning"
    and "se \<noteq> TermFails"
  shows "\<exists>c e plm' p'. cmd p = Some c \<and> StopProcess i se plm = (None, plm') \<and>
           processes plm' i = Some p' \<and> State p' = StateStopped \<and>
           EndTime p' = Some e \<and> StartTime p' \<le> e \<and>
           history plm' = history plm
             @ [EvState i StateStopping, EvSignal (Pid c) SIGTERM True]
             @ (case se of NeedsKill killed d \<Rightarrow> [EvSignal (Pid c) SIGKILL killed] | _ \<Rightarrow> [])
             @ [EvWait (Pid c), EvState i StateStopped]"
proof -
  have "handle_ok plm"
    using New_handle_inv assms(1) by (rule run_handle_inv)
  with assms(2) have h: "handle_inv (clock plm) p" by (simp add: all_records_def)
  with assms(3) obtain c where c: "cmd p = Some c" by (auto simp: handle_inv_def)
  from h have t: "StartTime p \<le> clock plm" by (simp add: handle_inv_def)
  show ?thesis
  proof (cases se)
    case TermFails
    with assms(4) show ?thesis by simp
  next
    case (ExitsInGrace d)
    show ?thesis
      unfolding ExitsInGrace StopProcess_ExitsInGrace [OF assms(2,3) c]
      using c t by simp
  next
    case (NeedsKill killed d)
    show ?thesis
      unfolding NeedsKill StopProcess_NeedsKill [OF assms(2,3) c]
      using c t by simp
  qed
qed

text \<open>
  Witness for C9: the demo's process ignores SIGTERM, is killed after the grace period, and
  the record reaches Stopped.
\<close>

theorem StopProcess_reaches_Stopped_witness:
  "run demo_ops (NewProcessLifecycleManager 0) = Returns demo_running \<and>
   processes demo_running 1 = Some (demo_record 4242) \<and>
   State (demo_record 4242) = StateRunning \<and>
   fst (StopProcess 1 (NeedsKill True second) demo_running) = None \<and>
   map_option State (processes (snd (StopProcess 1 (NeedsKill True second) demo_running)) 1)
     = Some StateStopped \<and>
   map_option EndTime (processes (snd (StopProcess 1 (NeedsKill True second) demo_running)) 1)
     = Some (Some (gracePeriod + second)) \<and>
   map_option StartTime (processes (snd (StopProcess 1 (NeedsKill True second) demo_running)) 1)
     = Some 0 \<and>
   history (snd (StopProcess 1 (NeedsKill True second) demo_running)) =
     demo_start_events @ [EvState 1 StateStopping, EvSignal 4242 SIGTERM True,
       EvSignal 4242 SIGKILL True, EvWait 4242, EvState 1 StateStopped]"
proof -
  have s: "State (demo_record 4242) = StateRunning" by (simp add: demo_record_fields)
  note w = StopProcess_reaches_Stopped [OF demo_running_run demo_record_1 s, of "NeedsKill True second"]
  have e: "StopProcess 1 (NeedsKill True second) demo_running =
     (None, demo_running\<lparr>processes := (processes demo_running)(1 \<mapsto>
                    (demo_record 4242)\<lparr>State := StateStopped, EndTime := Some (clock demo_running + gracePeriod + second)\<rparr>),
                clock := clock demo_running + gracePeriod + second,
                history := history demo_running @
                    [EvState 1 StateStopping, EvSignal (Pid (demo_cmd 4242)) SIGTERM True,
                     EvSignal (Pid (demo_cmd 4242)) SIGKILL True, EvWait (Pid (demo_cmd 4242)), EvState 1 StateStopped]\<rparr>)"
    by (rule StopProcess_NeedsKill [OF demo_record_1]) (simp_all add: demo_record_fields)
  show ?thesis
    using w demo_running_run demo_record_1
    by (simp add: e demo_running_fields demo_record_fields demo_cmd_def)
qed

text \<open>
  C10. A record returned by \<open>CreateProcess\<close> has maximum restart count 3, restart
  counter 0, working directory "/tmp", an empty environment, no dependencies and the default
  health checker, which holds when the record has a process handle and the process answers
  signal 0. The first id of a new manager is 1, and a create returns the id of the previous
  create plus one (in Go's int arithmetic), whatever other operations ran in between.
\<close>

theorem CreateProcess_defaults:
  "MaxRestarts (fst (CreateProcess name command plm)) = 3 \<and>
   RestartCount (fst (CreateProcess name command plm)) = 0 \<and>
   WorkDir (fst (CreateProcess name command plm)) = ''/tmp'' \<and>
   Environment (fst (CreateProcess name command plm)) = Map.empty \<and>
   Dependencies (fst (CreateProcess name command plm)) = [] \<and>
   HealthCheck (fst (CreateProcess name command plm)) = DefaultHealthChecker \<and>
   Check DefaultHealthChecker q alive = (cmd q \<noteq> None \<and> alive) \<and>
   ID (fst (CreateProcess name command (NewProcessLifecycleManager t0))) = 1 \<and>
   (\<not> list_ex is_create ops \<and>
    run ops (snd (CreateProcess name command plm)) = Returns plm' \<longrightarrow>
    ID (fst (CreateProcess name' command' plm')) = ID (fst (CreateProcess name command plm)) + 1)"
proof -
  have "ID (fst (CreateProcess name' command' plm')) = ID (fst (CreateProcess name command plm)) + 1"
    if "\<not> list_ex is_create ops" "run ops (snd (CreateProcess name command plm)) = Returns plm'"
    using run_no_create_next [OF that] by (simp add: CreateProcess_def Let_def)
  then show ?thesis
    by (simp add: CreateProcess_def Let_def NewProcessLifecycleManager_def split: option.splits)
qed

text \<open>
  Witness for C10: the demo's first process has id 1; after it has been started, the next
  create returns id 2.
\<close>

theorem CreateProcess_defaults_witness:
  "\<not> list_ex is_create [OpStart 1 (Launched 4242)] \<and>
   run [OpStart 1 (Launched 4242)]
      (snd (CreateProcess ''sleeper'' [''sleep'', ''30''] (NewProcessLifecycleManager 0)))
     = Returns demo_running \<and>
   ID (fst (CreateProcess ''sleeper'' [''sleep'', ''30''] (NewProcessLifecycleManager 0))) = 1 \<and>
   ID (fst (CreateProcess ''ping'' [''ping'', ''localhost''] demo_running)) = 2 \<and>
   MaxRestarts (fst (CreateProcess ''ping'' [''ping'', ''localhost''] demo_running)) = 3"
proof -
  have n: "\<not> list_ex is_create [OpStart 1 (Launched 4242)]" by simp
  have r: "run [OpStart 1 (Launched 4242)]
      (snd (CreateProcess ''sleeper'' [''sleep'', ''30''] (NewProcessLifecycleManager 0)))
     = Returns demo_running"
    using demo_running_run by (simp add: demo_ops_def)
  from CreateProcess_defaults [of "''sleeper''" "[''sleep'', ''30'']" "NewProcessLifecycleManager 0"
      _ _ 0 "[OpStart 1 (Launched 4242)]" demo_running "''ping''" "[''ping'', ''localhost'']"]
       CreateProcess_defaults [of "''ping''" "[''ping'', ''localhost'']" demo_running]
  show ?thesis using n r by simp
qed

end
